theory Spec2Isabelle
  imports Complex_Main "HOL-Library.Word" "HOL-Library.Log_Nat"
begin

unbundle bit_operations_syntax

section \<open>Open Wavetable (OWT) codec of cirrus-hal: a shallow embedding\<close>

text \<open>
  The development follows \<^verbatim>\<open>owt.c\<close> (the 2023 library with SVC and EP metadata) and the
  header that declares its types and constants. Struct fields carry a short prefix
  (\<open>ch_\<close>, \<open>cs_\<close>, \<open>p_\<close>, ...) because names such as \<open>length\<close>, \<open>id\<close> and \<open>max\<close> are
  constants of HOL. A \<open>char *\<close> that may be \<open>NULL\<close> is a \<open>string option\<close>; a \<open>string\<close>
  holds the characters in front of the terminating NUL.

  Failures are values. \<open>EINVAL\<close>, \<open>ERANGE\<close>, \<open>E2BIG\<close> and \<open>ENOSPC\<close> are the negative
  errno values the functions return; \<open>UB\<close> marks an execution that leaves defined C
  behaviour (a \<open>NULL\<close> or wild pointer handed to libc, a store behind an array, a shift
  by a negative count).
\<close>

datatype error = EINVAL | ERANGE | E2BIG | ENOSPC | UB

subsection \<open>The bitstream writer\<close>

text \<open>
  \<open>struct dspmem_chunk\<close>. \<open>ch_data\<close> is the sequence of bytes stored through the \<open>data\<close>
  pointer so far, so the pointer stands \<open>length (ch_data ch)\<close> bytes behind the start of
  the buffer; \<open>ch_max\<close> is the offset of \<open>max\<close>, that is the \<open>size\<close> handed to
  \<open>dspmem_chunk_create\<close>. Bytes stored at offsets from \<open>ch_max\<close> on lie outside the
  buffer the chunk was created for.
\<close>

record dspmem_chunk =
  ch_data :: "8 word list"
  ch_max :: int
  ch_bytes :: int
  ch_cache :: "32 word"
  ch_cachebits :: nat

definition dspmem_chunk_create :: "int \<Rightarrow> dspmem_chunk" where
  "dspmem_chunk_create sz =
     \<lparr>ch_data = [], ch_max = sz, ch_bytes = 0, ch_cache = 0, ch_cachebits = 0\<rparr>"

definition dspmem_chunk_end :: "dspmem_chunk \<Rightarrow> bool" where
  "dspmem_chunk_end ch = (int (length (ch_data ch)) = ch_max ch)"

definition dspmem_chunk_bytes :: "dspmem_chunk \<Rightarrow> int" where
  "dspmem_chunk_bytes ch = ch_bytes ch"

text \<open>
  The loop \<^verbatim>\<open>for (i = 0; i < sizeof(ch->cache); i++, ch->cache <<= 8) *ch->data++ = ...\<close>
  with the number of iterations still to run.
\<close>

fun dspmem_chunk_store :: "nat \<Rightarrow> dspmem_chunk \<Rightarrow> dspmem_chunk" where
  "dspmem_chunk_store 0 ch = ch"
| "dspmem_chunk_store (Suc n) ch =
     dspmem_chunk_store n
       (ch\<lparr>ch_data := ch_data ch @ [ucast (drop_bit 24 (ch_cache ch AND 0xFF000000))],
           ch_cache := push_bit 8 (ch_cache ch)\<rparr>)"

text \<open>
  \<open>dspmem_chunk_write\<close> returns its status together with the chunk, because every caller
  drops the status and goes on with the chunk as the failed call left it. With more than
  24 cached bits \<open>nwrite\<close> would be negative and the shifts undefined.
\<close>

function dspmem_chunk_write ::
  "dspmem_chunk \<Rightarrow> nat \<Rightarrow> 32 word \<Rightarrow> error option \<times> dspmem_chunk" where
  "dspmem_chunk_write ch nbits val =
     (if 24 < ch_cachebits ch then (Some UB, ch)
      else
        let nwrite = min (24 - ch_cachebits ch) nbits;
            ch1 = ch\<lparr>ch_cache := push_bit nwrite (ch_cache ch) OR drop_bit (nbits - nwrite) val,
                     ch_cachebits := ch_cachebits ch + nwrite\<rparr>;
            nbits1 = nbits - nwrite
        in if ch_cachebits ch1 = 24 then
             (if dspmem_chunk_end ch1 then (Some ENOSPC, ch1)
              else
                let ch2 = dspmem_chunk_store 4 (ch1\<lparr>ch_cache := ch_cache ch1 AND 0xFFFFFF\<rparr>);
                    ch3 = ch2\<lparr>ch_bytes := ch_bytes ch2 + 4, ch_cachebits := 0\<rparr>
                in if nbits1 \<noteq> 0 then dspmem_chunk_write ch3 nbits1 val else (None, ch3))
           else if nbits1 \<noteq> 0 then dspmem_chunk_write ch1 nbits1 val else (None, ch1))"
  by pat_completeness auto
termination
  by (relation "measure (\<lambda>(ch, nbits, val). 2 * nbits + (if ch_cachebits ch = 24 then 1 else 0))")
     (auto simp: min_def split: if_splits)

declare dspmem_chunk_write.simps [simp del]

definition dspmem_chunk_flush :: "dspmem_chunk \<Rightarrow> error option \<times> dspmem_chunk" where
  "dspmem_chunk_flush ch =
     (if ch_cachebits ch = 0 then (None, ch)
      else dspmem_chunk_write ch (24 - ch_cachebits ch) 0)"

text \<open>
  A run of \<open>dspmem_chunk_write(&ch, nbits, val);\<close> statements whose results are dropped,
  as in \<open>wt_type10_comp_to_buffer\<close> and \<open>wt_type12_pwle_write\<close>.
\<close>

definition dspmem_chunk_write_seq ::
  "dspmem_chunk \<Rightarrow> (nat \<times> 32 word) list \<Rightarrow> dspmem_chunk" where
  "dspmem_chunk_write_seq ch calls =
     foldl (\<lambda>c (nbits, val). snd (dspmem_chunk_write c nbits val)) ch calls"

subsection \<open>The C library, as far as the codec uses it\<close>

text \<open>
  Character classes of the C locale, \<open>strtok\<close>, \<open>strsep\<close>, \<open>strtoul\<close>, \<open>atoi\<close> and the
  conversions of \<open>sscanf\<close>, with \<open>unsigned long\<close> of 64 bits and \<open>int\<close> of 32 bits (LP64),
  and the results glibc gives where ISO C leaves them open (a value out of range for
  \<open>atoi\<close> is truncated, \<open>%u\<close> stores the low 32 bits).
\<close>

definition isdigit :: "char \<Rightarrow> bool" where
  "isdigit c = (48 \<le> (of_char c :: nat) \<and> (of_char c :: nat) \<le> 57)"

definition isalpha :: "char \<Rightarrow> bool" where
  "isalpha c = ((65 \<le> (of_char c :: nat) \<and> (of_char c :: nat) \<le> 90) \<or>
                (97 \<le> (of_char c :: nat) \<and> (of_char c :: nat) \<le> 122))"

definition isspace :: "char \<Rightarrow> bool" where
  "isspace c = ((of_char c :: nat) = 32 \<or> (9 \<le> (of_char c :: nat) \<and> (of_char c :: nat) \<le> 13))"

definition digits_val :: "string \<Rightarrow> int" where
  "digits_val ds = foldl (\<lambda>n c. 10 * n + (of_char c - 48)) 0 ds"

text \<open>\<open>str[0]\<close>, the terminating NUL for the empty string.\<close>

definition char_at0 :: "string \<Rightarrow> char" where
  "char_at0 s = (case s of [] \<Rightarrow> CHR 0x00 | c # _ \<Rightarrow> c)"

text \<open>
  All the tokens that the calls \<open>strtok(full_str, delim)\<close>, \<open>strtok(NULL, delim)\<close>, ...
  return before \<open>NULL\<close>: the maximal runs of characters that are not delimiters. The
  second argument is the token that is being read.
\<close>

fun strtok_scan :: "string \<Rightarrow> string \<Rightarrow> string \<Rightarrow> string list" where
  "strtok_scan delim cur [] = (if cur = [] then [] else [cur])"
| "strtok_scan delim cur (c # cs) =
     (if c \<in> set delim then (if cur = [] then [] else [cur]) @ strtok_scan delim [] cs
      else strtok_scan delim (cur @ [c]) cs)"

definition strtok_tokens :: "string \<Rightarrow> string \<Rightarrow> string list" where
  "strtok_tokens full_str delim = strtok_scan delim [] full_str"

text \<open>\<open>strsep(&str, delim)\<close>: the token it returns and the new value of \<open>str\<close>.\<close>

definition strsep :: "string \<Rightarrow> string \<Rightarrow> string \<times> string option" where
  "strsep str delim =
     (takeWhile (\<lambda>c. c \<notin> set delim) str,
      case dropWhile (\<lambda>c. c \<notin> set delim) str of [] \<Rightarrow> None | _ # r \<Rightarrow> Some r)"

text \<open>\<open>strnchr\<close> of \<open>owt.c\<close> and \<open>strstr\<close>, of which only "found or not" is used.\<close>

definition strnchr :: "string \<Rightarrow> nat \<Rightarrow> char \<Rightarrow> bool" where
  "strnchr s count c = (c \<in> set (take count s))"

fun strstr :: "string \<Rightarrow> string \<Rightarrow> bool" where
  "strstr [] sub = (sub = [])"
| "strstr (c # cs) sub = (take (length sub) (c # cs) = sub \<or> strstr cs sub)"

text \<open>The sign and the digits a decimal conversion reads after leading white space.\<close>

definition scan_sign :: "string \<Rightarrow> bool \<times> string" where
  "scan_sign s =
     (case s of
        c # r \<Rightarrow> if c = CHR ''-'' then (True, r) else if c = CHR ''+'' then (False, r) else (False, s)
      | [] \<Rightarrow> (False, s))"

definition strtoul :: "string \<Rightarrow> 64 word" where
  "strtoul s =
     (let (neg, r) = scan_sign (dropWhile isspace s);
          ds = takeWhile isdigit r;
          n = digits_val ds
      in if ds = [] then 0
         else if 2 ^ 64 \<le> n then - 1
         else if neg then - word_of_int n else word_of_int n)"

definition atoi :: "string \<Rightarrow> int" where
  "atoi s =
     (let (neg, r) = scan_sign (dropWhile isspace s);
          n = digits_val (takeWhile isdigit r);
          l = (if neg then max (- (2 ^ 63)) (- n) else min (2 ^ 63 - 1) n)
      in sint (word_of_int l :: 32 word))"

definition c_atoi :: "string option \<Rightarrow> error + int" where
  "c_atoi p = (case p of None \<Rightarrow> Inl UB | Some s \<Rightarrow> Inr (atoi s))"

text \<open>The conversions \<open>%u\<close> and \<open>%3s\<close> of \<open>sscanf\<close>: the value and the rest of the input.\<close>

definition scan_u :: "string \<Rightarrow> (32 word \<times> string) option" where
  "scan_u s =
     (let (neg, r) = scan_sign (dropWhile isspace s);
          ds = takeWhile isdigit r;
          n = digits_val ds;
          v = (if 2 ^ 64 \<le> n then - 1 else if neg then - word_of_int n else word_of_int n)
                :: 64 word
      in if ds = [] then None else Some (ucast v, dropWhile isdigit r))"

definition scan_s3 :: "string \<Rightarrow> (string \<times> string) option" where
  "scan_s3 s =
     (let r = dropWhile isspace s;
          w = take 3 (takeWhile (\<lambda>c. \<not> isspace c) r)
      in if w = [] then None else Some (w, drop (length w) r))"

text \<open>
  \<open>sscanf(s, "%u.%u.%u", ...)\<close> and \<open>sscanf(s, "%u;%u;%u", ...)\<close>: the values converted, in
  order. Their number is the return value, except that \<open>sscanf\<close> returns \<open>EOF\<close> where the
  input ends in front of the first conversion; the callers only compare the result with
  2 or 3.
\<close>

definition sscanf_u3 :: "char \<Rightarrow> string \<Rightarrow> 32 word list" where
  "sscanf_u3 sep s =
     (case scan_u s of
        None \<Rightarrow> []
      | Some (a, r1) \<Rightarrow>
          if r1 = [] \<or> hd r1 \<noteq> sep then [a]
          else (case scan_u (tl r1) of
                  None \<Rightarrow> [a]
                | Some (b, r2) \<Rightarrow>
                    if r2 = [] \<or> hd r2 \<noteq> sep then [a, b]
                    else (case scan_u (tl r2) of
                            None \<Rightarrow> [a, b]
                          | Some (d, r3) \<Rightarrow> [a, b, d])))"

subsection \<open>Type 10: Composite\<close>

record wt_type10_comp_wvfrm =
  w_index :: "8 word"
  w_amplitude :: "8 word"
  w_duration :: "16 word"

record wt_type10_comp_section =
  cs_repeat :: "8 word"
  cs_flags :: "8 word"
  cs_wvfrm :: wt_type10_comp_wvfrm
  cs_delay :: "16 word"

record wt_ep_metadata =
  ep_id :: "32 word"
  ep_length :: "32 word"
  ep_payload :: "32 word"
  ep_custom_threshold :: "32 word"

text \<open>
  \<open>struct wt_type10_comp\<close> without its field \<open>fd\<close>, which the library never touches.
  \<open>c_sections\<close> is the array \<open>sections[WT_MAX_SECTIONS]\<close>; only the indices below 256 exist.
\<close>

record wt_type10_comp =
  c_nsections :: "8 word"
  c_repeat :: "8 word"
  c_inner_loop :: bool
  c_sections :: "nat \<Rightarrow> wt_type10_comp_section"
  c_ep_metadata :: wt_ep_metadata

datatype wt_type10_comp_specifier =
    COMP_SPEC_OUTER_LOOP
  | COMP_SPEC_INNER_LOOP_START
  | COMP_SPEC_INNER_LOOP_STOP
  | COMP_SPEC_OUTER_LOOP_REPETITION
  | COMP_SPEC_EP_DATA_START
  | COMP_SPEC_WVFRM
  | COMP_SPEC_DELAY
  | COMP_SPEC_INVALID

text \<open>The statements of the loop body of \<open>wt_type10_comp_to_buffer\<close> for one section.\<close>

definition wt_type10_comp_section_calls ::
  "wt_type10_comp_section \<Rightarrow> (nat \<times> 32 word) list" where
  "wt_type10_comp_section_calls s =
     [(8, ucast (w_amplitude (cs_wvfrm s))),
      (8, ucast (w_index (cs_wvfrm s))),
      (8, ucast (cs_repeat s)),
      (8, ucast (cs_flags s)),
      (16, ucast (cs_delay s))] @
     (if cs_flags s AND 0x80 \<noteq> 0
      then [(8, 0), (16, ucast (w_duration (cs_wvfrm s)))] else [])"

text \<open>All calls of \<open>dspmem_chunk_write\<close> that \<open>wt_type10_comp_to_buffer\<close> makes, in order.\<close>

definition wt_type10_comp_calls :: "wt_type10_comp \<Rightarrow> (nat \<times> 32 word) list" where
  "wt_type10_comp_calls cmp =
     (if ep_id (c_ep_metadata cmp) = 2
      then [(8, ep_id (c_ep_metadata cmp)),
            (8, ep_length (c_ep_metadata cmp)),
            (8, ep_payload (c_ep_metadata cmp)),
            (24, ep_custom_threshold (c_ep_metadata cmp))]
      else []) @
     [(8, 0), (8, ucast (c_nsections cmp)), (8, ucast (c_repeat cmp))] @
     concat (map (\<lambda>i. wt_type10_comp_section_calls (c_sections cmp i))
                 [0 ..< unat (c_nsections cmp)])"

text \<open>The result is the return value and the bytes stored into \<open>buf\<close>.\<close>

definition wt_type10_comp_to_buffer :: "wt_type10_comp \<Rightarrow> int \<Rightarrow> int \<times> 8 word list" where
  "wt_type10_comp_to_buffer cmp sz =
     (let ch = dspmem_chunk_write_seq (dspmem_chunk_create sz) (wt_type10_comp_calls cmp)
      in (dspmem_chunk_bytes ch, ch_data ch))"

definition wt_type10_comp_specifier_get :: "string \<Rightarrow> wt_type10_comp_specifier" where
  "wt_type10_comp_specifier_get str =
     (if str = ''~'' then COMP_SPEC_OUTER_LOOP
      else if str = ''!!'' then COMP_SPEC_INNER_LOOP_START
      else if strstr str ''!!'' then COMP_SPEC_INNER_LOOP_STOP
      else if strnchr str 20 (CHR ''!'') then COMP_SPEC_OUTER_LOOP_REPETITION
      else if strnchr str 20 (CHR ''.'') then COMP_SPEC_WVFRM
      else if strnchr str 2 (CHR ''['') then COMP_SPEC_EP_DATA_START
      else COMP_SPEC_DELAY)"

text \<open>
  \<open>wt_type10_comp_waveform_get\<close>. The first argument is what the array \<open>char bank[4]\<close>
  holds when the function is entered: the function does not initialise it, and the
  branch for a token without a bank leaves it as it is before the three \<open>strncmp\<close>
  read it. The result is what the array holds when the function returns, and the
  section as the function leaves it.
\<close>

definition wt_type10_comp_waveform_get ::
  "string \<Rightarrow> string \<Rightarrow> wt_type10_comp_section \<Rightarrow>
   error + string \<times> wt_type10_comp_section" where
  "wt_type10_comp_waveform_get bank0 str section =
     (if length str < 3 then Inl EINVAL
      else
        let i = (if \<not> isalpha (str ! 0) then 1 else if \<not> isalpha (str ! 1) then 2 else 3);
            detected = (isalpha (str ! 0) \<and> isalpha (str ! 1) \<and> isalpha (str ! 2));
            j = length (takeWhile isalpha (drop 3 str));
            scanned =
              (if detected then
                 (case scan_s3 (drop j str) of
                    None \<Rightarrow> None
                  | Some (b, r) \<Rightarrow>
                      (case sscanf_u3 (CHR ''.'') r of
                         [] \<Rightarrow> None
                       | [x] \<Rightarrow> None
                       | [x, y] \<Rightarrow> Some (b, x, y, 0)
                       | x # y # z # _ \<Rightarrow> Some (b, x, y, z)))
               else
                 (case sscanf_u3 (CHR ''.'') (drop (i - 1) str) of
                    [] \<Rightarrow> None
                  | [x] \<Rightarrow> None
                  | [x, y] \<Rightarrow> Some (bank0, x, y, 0)
                  | x # y # z # _ \<Rightarrow> Some (bank0, x, y, z)))
        in case scanned of
             None \<Rightarrow> Inl EINVAL
           | Some (bank1, index_tmp, amp_tmp, duration_tmp) \<Rightarrow>
               let bank = (if take 3 bank1 \<noteq> ''RAM'' \<and> take 3 bank1 \<noteq> ''ROM'' \<and>
                              take 3 bank1 \<noteq> ''OWT'' then ''RAM'' else bank1)
               in if amp_tmp = 0 \<or> 100 < amp_tmp then Inl EINVAL
                  else if duration_tmp \<noteq> 0 \<and> duration_tmp \<noteq> 0xFFFF \<and> 16383 < duration_tmp
                  then Inl EINVAL
                  else
                    let duration = (if duration_tmp \<noteq> 0 \<and> duration_tmp \<noteq> 0xFFFF
                                    then duration_tmp * 4 else duration_tmp);
                        wave = \<lparr>w_index = ucast (0xFF AND index_tmp),
                                w_amplitude = ucast (0xFF AND amp_tmp),
                                w_duration = ucast (0xFFFF AND duration)\<rparr>
                    in Inr (bank,
                            section\<lparr>cs_wvfrm := wave,
                                     cs_flags :=
                                       (if take 3 bank = ''ROM'' then cs_flags section OR 0x40
                                        else if take 3 bank = ''OWT'' then cs_flags section OR 0x20
                                        else cs_flags section)\<rparr>))"

text \<open>
  \<open>wt_type10_comp_decode\<close>. \<open>section\<close> starts at \<open>&comp->sections[comp->nsections]\<close>; after
  \<open>section++\<close> it may stand behind the array, and a store through it there is \<open>UB\<close>.
\<close>

definition comp_section_upd ::
  "wt_type10_comp \<Rightarrow> nat \<Rightarrow> (wt_type10_comp_section \<Rightarrow> wt_type10_comp_section) \<Rightarrow>
   error + wt_type10_comp" where
  "comp_section_upd cmp idx f =
     (if 256 \<le> idx then Inl UB
      else Inr (cmp\<lparr>c_sections := (c_sections cmp)(idx := f (c_sections cmp idx))\<rparr>))"

text \<open>
  The array \<open>bank\<close> is never initialised. Every call of \<open>wt_type10_comp_waveform_get\<close> within
  one run of the compiler has its frame at the same place, so the array is taken to
  hold at every call what the call before left there, and at the first call what the
  stack held when the compiler was entered. \<open>wt_type10_comp_decode\<close> therefore takes the
  contents and returns them, changed by the branch of a waveform token only.
\<close>

definition comp_keep :: "string \<Rightarrow> error + wt_type10_comp \<Rightarrow> error + string \<times> wt_type10_comp" where
  "comp_keep bank r = (case r of Inl e \<Rightarrow> Inl e | Inr cmp \<Rightarrow> Inr (bank, cmp))"

definition wt_type10_comp_decode ::
  "string \<Rightarrow> wt_type10_comp \<Rightarrow> wt_type10_comp_specifier \<Rightarrow> string \<Rightarrow>
   error + string \<times> wt_type10_comp" where
  "wt_type10_comp_decode bank0 cmp specifier str =
     (let n = unat (c_nsections cmp);
          section = c_sections cmp n
      in case specifier of
           COMP_SPEC_OUTER_LOOP \<Rightarrow>
             if c_repeat cmp \<noteq> 0 then Inl EINVAL else Inr (bank0, cmp\<lparr>c_repeat := 0xFF\<rparr>)
         | COMP_SPEC_OUTER_LOOP_REPETITION \<Rightarrow>
             if c_repeat cmp \<noteq> 0 then Inl EINVAL
             else let l_val = strtoul (fst (strsep str ''!''))
                  in if l_val = 0 then Inl EINVAL
                     else Inr (bank0, cmp\<lparr>c_repeat := ucast (0xFF AND l_val)\<rparr>)
         | COMP_SPEC_INNER_LOOP_START \<Rightarrow>
             if c_inner_loop cmp then Inl EINVAL
             else
               let adv = (w_amplitude (cs_wvfrm section) \<noteq> 0 \<or> cs_delay section \<noteq> 0);
                   idx = (if adv then n + 1 else n);
                   comp1 = (if adv then cmp\<lparr>c_nsections := c_nsections cmp + 1\<rparr> else cmp)
               in (case comp_section_upd comp1 idx (\<lambda>s. s\<lparr>cs_repeat := 0xFF\<rparr>) of
                     Inl e \<Rightarrow> Inl e
                   | Inr comp2 \<Rightarrow> Inr (bank0, comp2\<lparr>c_inner_loop := True\<rparr>))
         | COMP_SPEC_EP_DATA_START \<Rightarrow>
             (case sscanf_u3 (CHR '';'') (drop 1 str) of
                a # b # d # _ \<Rightarrow>
                  Inr (bank0, cmp\<lparr>c_ep_metadata :=
                         \<lparr>ep_id = 2, ep_length = a, ep_payload = b, ep_custom_threshold = d\<rparr>\<rparr>)
              | _ \<Rightarrow> Inl EINVAL)
         | COMP_SPEC_INNER_LOOP_STOP \<Rightarrow>
             if \<not> c_inner_loop cmp then Inl EINVAL
             else let l_val = strtoul (fst (strsep str ''!''))
                  in if l_val = 0 then Inl EINVAL
                     else Inr (bank0,
                               cmp\<lparr>c_inner_loop := False,
                                    c_sections := (c_sections cmp)
                                      (n := section\<lparr>cs_repeat := ucast (0xFF AND l_val)\<rparr>),
                                    c_nsections := c_nsections cmp + 1\<rparr>)
         | COMP_SPEC_WVFRM \<Rightarrow>
             let adv = (w_amplitude (cs_wvfrm section) \<noteq> 0 \<or> cs_delay section \<noteq> 0);
                 idx = (if adv then n + 1 else n);
                 comp1 = (if adv then cmp\<lparr>c_nsections := c_nsections cmp + 1\<rparr> else cmp)
             in (case wt_type10_comp_waveform_get bank0 str (c_sections comp1 idx) of
                   Inl e \<Rightarrow> Inl e
                 | Inr (bank1, s1) \<Rightarrow>
                     comp_keep bank1
                       (comp_section_upd comp1 idx
                          (\<lambda>s. if w_duration (cs_wvfrm s1) \<noteq> 0
                               then s1\<lparr>cs_flags := cs_flags s1 OR 0x80\<rparr> else s1)))
         | COMP_SPEC_DELAY \<Rightarrow>
             let adv = (cs_delay section \<noteq> 0);
                 idx = (if adv then n + 1 else n);
                 comp1 = (if adv then cmp\<lparr>c_nsections := c_nsections cmp + 1\<rparr> else cmp);
                 l_val = strtoul str
             in if l_val = 0 then Inl EINVAL
                else if 10000 < l_val then Inl EINVAL
                else comp_keep bank0
                       (comp_section_upd comp1 idx (\<lambda>s. s\<lparr>cs_delay := ucast (0xFFFF AND l_val)\<rparr>))
         | COMP_SPEC_INVALID \<Rightarrow> Inl EINVAL)"

text \<open>The \<open>while\<close> loop of \<open>wt_type10_comp_str_to_bin\<close> over the tokens still to come.\<close>

fun wt_type10_comp_loop ::
  "string \<Rightarrow> wt_type10_comp \<Rightarrow> string list \<Rightarrow> error + string \<times> wt_type10_comp" where
  "wt_type10_comp_loop bank0 cmp [] = Inr (bank0, cmp)"
| "wt_type10_comp_loop bank0 cmp (str # strs) =
     (case wt_type10_comp_decode bank0 cmp (wt_type10_comp_specifier_get str) str of
        Inl e \<Rightarrow> Inl e
      | Inr (bank1, comp1) \<Rightarrow> wt_type10_comp_loop bank1 comp1 strs)"

text \<open>\<open>struct wt_type10_comp comp = { 0 }\<close>.\<close>

definition wt_type10_comp_zero :: wt_type10_comp where
  "wt_type10_comp_zero =
     \<lparr>c_nsections = 0, c_repeat = 0, c_inner_loop = False,
      c_sections = (\<lambda>_. \<lparr>cs_repeat = 0, cs_flags = 0,
                         cs_wvfrm = \<lparr>w_index = 0, w_amplitude = 0, w_duration = 0\<rparr>,
                         cs_delay = 0\<rparr>),
      c_ep_metadata = \<lparr>ep_id = 0, ep_length = 0, ep_payload = 0, ep_custom_threshold = 0\<rparr>\<rparr>"

text \<open>
  The struct that \<open>wt_type10_comp_str_to_bin\<close> hands to \<open>wt_type10_comp_to_buffer\<close>: the
  loop, the test for an open inner loop and the count of the last section.
\<close>

definition wt_type10_comp_parse :: "string \<Rightarrow> string \<Rightarrow> error + wt_type10_comp" where
  "wt_type10_comp_parse bank0 full_str =
     (case wt_type10_comp_loop bank0 wt_type10_comp_zero
             (strtok_tokens full_str [CHR '']'', CHR '','', CHR '' '', CHR 0x0A]) of
        Inl e \<Rightarrow> Inl e
      | Inr (bank1, cmp) \<Rightarrow>
          if c_inner_loop cmp then Inl EINVAL
          else
            let last = c_sections cmp (unat (c_nsections cmp))
            in if w_amplitude (cs_wvfrm last) \<noteq> 0 \<or> cs_delay last \<noteq> 0
               then Inr (cmp\<lparr>c_nsections := c_nsections cmp + 1\<rparr>) else Inr cmp)"

definition wt_type10_comp_str_to_bin :: "string \<Rightarrow> string \<Rightarrow> error + int \<times> 8 word list" where
  "wt_type10_comp_str_to_bin bank0 full_str =
     (case wt_type10_comp_parse bank0 full_str of
        Inl e \<Rightarrow> Inl e
      | Inr cmp \<Rightarrow> Inr (wt_type10_comp_to_buffer cmp 1152))"

subsection \<open>Single precision arithmetic and \<open>parse_float\<close>\<close>

text \<open>
  A \<open>float\<close> is an IEEE 754 binary32 value: a rational with a 24 bit significand, an
  infinity, or a NaN. Arithmetic rounds to nearest, ties to even, and is evaluated in
  single precision (\<open>FLT_EVAL_METHOD\<close> 0). The sign of an infinity is not kept: the only
  use of a \<open>float\<close> is the range test of \<open>parse_float\<close>, which both infinities fail.
\<close>

datatype c_float = Finite rat | Infinity | NaN

definition pow2 :: "int \<Rightarrow> rat" where
  "pow2 e = (if 0 \<le> e then 2 ^ nat e else 1 / 2 ^ nat (- e))"

definition pow10 :: "int \<Rightarrow> rat" where
  "pow10 e = (if 0 \<le> e then 10 ^ nat e else 1 / 10 ^ nat (- e))"

definition round_half_even :: "rat \<Rightarrow> int" where
  "round_half_even x =
     (let f = \<lfloor>x\<rfloor>; d = x - of_int f
      in if d < 1 / 2 then f else if 1 / 2 < d then f + 1 else if even f then f else f + 1)"

text \<open>The binary exponent \<open>\<lfloor>log\<^sub>2 x\<rfloor>\<close> of a positive rational.\<close>

definition ilog2 :: "rat \<Rightarrow> int" where
  "ilog2 x =
     (let (n, d) = quotient_of x;
          e0 = int (floorlog 2 (nat n)) - int (floorlog 2 (nat d))
      in if pow2 e0 \<le> x then e0 else e0 - 1)"

definition float_round :: "rat \<Rightarrow> c_float" where
  "float_round x =
     (if x = 0 then Finite 0
      else
        let a = \<bar>x\<bar>;
            p = max (ilog2 a) (- 126) - 23;
            r = of_int (round_half_even (a / pow2 p)) * pow2 p
        in if 2 ^ 128 \<le> r then Infinity else Finite (if x < 0 then - r else r))"

text \<open>The value of a \<open>float\<close> literal such as \<open>0.9995118f\<close>.\<close>

definition float_lit :: "rat \<Rightarrow> rat" where
  "float_lit x = (case float_round x of Finite y \<Rightarrow> y | _ \<Rightarrow> 0)"

text \<open>\<open>roundf\<close> followed by the conversion to \<open>int\<close>: halves go away from zero.\<close>

definition roundf :: "rat \<Rightarrow> int" where
  "roundf x = (if 0 \<le> x then \<lfloor>x + 1 / 2\<rfloor> else - \<lfloor>- x + 1 / 2\<rfloor>)"

definition tolower :: "char \<Rightarrow> char" where
  "tolower c = (if 65 \<le> (of_char c :: nat) \<and> (of_char c :: nat) \<le> 90
                then char_of (of_char c + (32 :: nat)) else c)"

definition isxdigit :: "char \<Rightarrow> bool" where
  "isxdigit c = (isdigit c \<or> (97 \<le> (of_char (tolower c) :: nat) \<and> (of_char (tolower c) :: nat) \<le> 102))"

definition xdigits_val :: "string \<Rightarrow> int" where
  "xdigits_val ds =
     foldl (\<lambda>n c. 16 * n + (if isdigit c then of_char c - 48 else of_char (tolower c) - 87)) 0 ds"

text \<open>An exponent part \<open>e\<close>/\<open>p\<close>, sign, digits; 0 where the text has none.\<close>

definition scan_exponent :: "char \<Rightarrow> string \<Rightarrow> int" where
  "scan_exponent mark s =
     (case s of
        [] \<Rightarrow> 0
      | c # r \<Rightarrow>
          if tolower c \<noteq> mark then 0
          else let (neg, r1) = scan_sign r; ds = takeWhile isdigit r1
               in if ds = [] then 0 else if neg then - digits_val ds else digits_val ds)"

text \<open>
  \<open>strtof(s, NULL)\<close>: the value, and whether \<open>errno\<close> is set to \<open>ERANGE\<close> (on overflow, and
  on a result below the normal range that is not exact). The forms are the ones of ISO
  C: decimal and hexadecimal numbers, \<open>inf\<close>, \<open>nan\<close>; a text with no number gives 0.
\<close>

definition strtof :: "string \<Rightarrow> c_float \<times> bool" where
  "strtof s =
     (let (neg, r) = scan_sign (dropWhile isspace s);
          hex = (map tolower (take 2 r) = ''0x'' \<and>
                 (case drop 2 r of
                    [] \<Rightarrow> False
                  | c # r1 \<Rightarrow> isxdigit c \<or> (c = CHR ''.'' \<and> r1 \<noteq> [] \<and> isxdigit (hd r1))));
          body = (if hex then drop 2 r else r);
          dig = (if hex then isxdigit else isdigit);
          ip = takeWhile dig body;
          r1 = dropWhile dig body;
          point = (r1 \<noteq> [] \<and> hd r1 = CHR ''.'');
          fp = (if point then takeWhile dig (tl r1) else []);
          r2 = (if point then dropWhile dig (tl r1) else r1);
          x = (if hex
               then of_int (xdigits_val (ip @ fp)) *
                    pow2 (scan_exponent (CHR ''p'') r2 - 4 * int (length fp))
               else of_int (digits_val (ip @ fp)) *
                    pow10 (scan_exponent (CHR ''e'') r2 - int (length fp)))
      in if map tolower (take 3 r) = ''inf'' then (Infinity, False)
         else if map tolower (take 3 r) = ''nan'' then (NaN, False)
         else if ip = [] \<and> fp = [] then (Finite 0, False)
         else (case float_round (if neg then - x else x) of
                 Finite y \<Rightarrow> (Finite y, \<bar>x\<bar> < pow2 (- 126) \<and> \<bar>y\<bar> \<noteq> \<bar>x\<bar>)
               | f \<Rightarrow> (f, True)))"

text \<open>
  \<open>parse_float\<close>. \<open>mn\<close> and \<open>mx\<close> are the decimal literals written at the call, which the
  compiler rounds to \<open>float\<close>. A NaN passes the range test, and its conversion to \<open>int\<close>
  is undefined.
\<close>

definition parse_float :: "string option \<Rightarrow> int \<Rightarrow> rat \<Rightarrow> rat \<Rightarrow> error + int" where
  "parse_float frc scale mn mx =
     (case frc of
        None \<Rightarrow> Inl UB
      | Some s \<Rightarrow>
          let (fres, erange) = strtof s
          in if erange then Inl ERANGE
             else (case fres of
                     NaN \<Rightarrow> Inl UB
                   | Infinity \<Rightarrow> Inl ERANGE
                   | Finite x \<Rightarrow>
                       if x < float_lit mn \<or> float_lit mx < x then Inl ERANGE
                       else (case float_round (x * of_int scale) of
                               Finite y \<Rightarrow> Inr (roundf y)
                             | _ \<Rightarrow> Inl UB)))"

subsection \<open>Type 12: PWLE\<close>

record wt_type12_pwle_section =
  s_time :: "16 word"
  s_level :: "16 word"
  s_frequency :: "16 word"
  s_flags :: "8 word"
  s_vbtarget :: "32 word"

record wt_type12_svc_metadata =
  svc_id :: "8 word"
  svc_length :: "8 word"
  svc_mode :: "8 word"
  svc_braking_time :: "32 word"

text \<open>
  \<open>struct wt_type12_pwle\<close>. \<open>nampsections\<close> is a \<open>double\<close> in the header; it only ever
  holds what it held at the start plus a count, so it is an integer here, and its
  conversion to \<open>uint32_t\<close> in \<open>wt_type12_pwle_write\<close> is the one of an integer.
\<close>

record wt_type12_pwle =
  p_feature :: "16 word"
  p_str_len :: "32 word"
  p_wlength :: "32 word"
  p_repeat :: "8 word"
  p_wait :: "16 word"
  p_nsections :: "8 word"
  p_nampsections :: int
  p_svc_metadata :: wt_type12_svc_metadata
  p_ep_metadata :: wt_ep_metadata
  p_sections :: "nat \<Rightarrow> wt_type12_pwle_section"

datatype wt_type12_pwle_specifier =
    PWLE_SPEC_SAVE
  | PWLE_SPEC_FEATURE
  | PWLE_SPEC_REPEAT
  | PWLE_SPEC_WAIT
  | PWLE_SPEC_SVC_MODE
  | PWLE_SPEC_SVC_BRAKING_TIME
  | PWLE_SPEC_EP_LENGTH
  | PWLE_SPEC_EP_PAYLOAD
  | PWLE_SPEC_EP_THRESH
  | PWLE_SPEC_NUM_VALS
  | PWLE_SPEC_TIME
  | PWLE_SPEC_LEVEL
  | PWLE_SPEC_FREQ
  | PWLE_SPEC_CHIRP
  | PWLE_SPEC_BRAKE
  | PWLE_SPEC_AR
  | PWLE_SPEC_VBT
  | PWLE_SPEC_RELFREQ
  | PWLE_SPEC_INVALID

definition wt_type12_pwle_specifier_get :: "string \<Rightarrow> wt_type12_pwle_specifier" where
  "wt_type12_pwle_specifier_get str =
     (if char_at0 str = CHR ''S'' then PWLE_SPEC_SAVE
      else if take 2 str = ''WF'' then PWLE_SPEC_FEATURE
      else if take 2 str = ''RP'' then PWLE_SPEC_REPEAT
      else if take 2 str = ''WT'' then PWLE_SPEC_WAIT
      else if char_at0 str = CHR ''T'' then PWLE_SPEC_TIME
      else if char_at0 str = CHR ''L'' then PWLE_SPEC_LEVEL
      else if char_at0 str = CHR ''F'' then PWLE_SPEC_FREQ
      else if char_at0 str = CHR ''C'' then PWLE_SPEC_CHIRP
      else if char_at0 str = CHR ''B'' then PWLE_SPEC_BRAKE
      else if take 2 str = ''AR'' then PWLE_SPEC_AR
      else if char_at0 str = CHR ''V'' then PWLE_SPEC_VBT
      else if char_at0 str = CHR ''M'' then PWLE_SPEC_SVC_MODE
      else if char_at0 str = CHR ''K'' then PWLE_SPEC_SVC_BRAKING_TIME
      else if take 2 str = ''EM'' then PWLE_SPEC_EP_LENGTH
      else if take 2 str = ''ET'' then PWLE_SPEC_EP_PAYLOAD
      else if take 2 str = ''EC'' then PWLE_SPEC_EP_THRESH
      else if char_at0 str = CHR ''R'' then PWLE_SPEC_RELFREQ
      else PWLE_SPEC_INVALID)"

definition wt_type12_pwle_save_entry :: "string option \<Rightarrow> error + unit" where
  "wt_type12_pwle_save_entry token =
     (case c_atoi token of
        Inl e \<Rightarrow> Inl e
      | Inr val \<Rightarrow> if val = 1 \<or> val = 0 then Inr () else Inl EINVAL)"

definition wt_type12_pwle_feature_entry ::
  "wt_type12_pwle \<Rightarrow> string option \<Rightarrow> error + wt_type12_pwle" where
  "wt_type12_pwle_feature_entry pwle token =
     (case c_atoi token of
        Inl e \<Rightarrow> Inl e
      | Inr val \<Rightarrow>
          if 255 < val \<or> val < 0 then Inl EINVAL
          else Inr (pwle\<lparr>p_feature := word_of_int (val * 2 ^ 8)\<rparr>))"

definition wt_type12_pwle_repeat_entry ::
  "wt_type12_pwle \<Rightarrow> string option \<Rightarrow> error + wt_type12_pwle" where
  "wt_type12_pwle_repeat_entry pwle token =
     (case c_atoi token of
        Inl e \<Rightarrow> Inl e
      | Inr val \<Rightarrow>
          if val < 0 \<or> 255 < val then Inl EINVAL
          else Inr (pwle\<lparr>p_repeat := word_of_int val\<rparr>))"

definition wt_type12_pwle_svc_mode_entry ::
  "wt_type12_pwle \<Rightarrow> string option \<Rightarrow> error + wt_type12_pwle" where
  "wt_type12_pwle_svc_mode_entry pwle token =
     (case c_atoi token of
        Inl e \<Rightarrow> Inl e
      | Inr val \<Rightarrow>
          if val < - 1 \<or> 3 < val then Inl EINVAL
          else if val \<noteq> - 1
          then Inr (pwle\<lparr>p_svc_metadata :=
                      (p_svc_metadata pwle)\<lparr>svc_id := 1, svc_length := 1,
                                             svc_mode := word_of_int val\<rparr>\<rparr>)
          else Inr pwle)"

definition wt_type12_pwle_svc_braking_time_entry ::
  "wt_type12_pwle \<Rightarrow> string option \<Rightarrow> error + wt_type12_pwle" where
  "wt_type12_pwle_svc_braking_time_entry pwle token =
     (case c_atoi token of
        Inl e \<Rightarrow> Inl e
      | Inr val \<Rightarrow>
          if val < 0 \<or> 1000 < val then Inl EINVAL
          else Inr (pwle\<lparr>p_svc_metadata :=
                      (p_svc_metadata pwle)\<lparr>svc_braking_time := word_of_int (val * 8)\<rparr>\<rparr>))"

definition wt_type12_pwle_ep_length_entry ::
  "wt_type12_pwle \<Rightarrow> string option \<Rightarrow> error + wt_type12_pwle" where
  "wt_type12_pwle_ep_length_entry pwle token =
     (case c_atoi token of
        Inl e \<Rightarrow> Inl e
      | Inr val \<Rightarrow>
          if val \<noteq> 1 \<or> val \<noteq> 0 then Inl EINVAL
          else Inr (pwle\<lparr>p_ep_metadata := (p_ep_metadata pwle)\<lparr>ep_length := word_of_int val\<rparr>\<rparr>))"

definition wt_type12_pwle_ep_payload_entry ::
  "wt_type12_pwle \<Rightarrow> string option \<Rightarrow> error + wt_type12_pwle" where
  "wt_type12_pwle_ep_payload_entry pwle token =
     (case c_atoi token of
        Inl e \<Rightarrow> Inl e
      | Inr val \<Rightarrow>
          if val < 0 \<or> 7 < val then Inl EINVAL
          else
            let ep = (p_ep_metadata pwle)\<lparr>ep_payload := word_of_int val\<rparr>
            in Inr (pwle\<lparr>p_ep_metadata := (if val \<noteq> 0 then ep\<lparr>ep_id := 2\<rparr> else ep)\<rparr>))"

definition wt_type12_pwle_ep_threshold_entry ::
  "wt_type12_pwle \<Rightarrow> string option \<Rightarrow> error + wt_type12_pwle" where
  "wt_type12_pwle_ep_threshold_entry pwle token =
     (case c_atoi token of
        Inl e \<Rightarrow> Inl e
      | Inr val \<Rightarrow>
          if val < 0 then Inl EINVAL
          else Inr (pwle\<lparr>p_ep_metadata :=
                      (p_ep_metadata pwle)\<lparr>ep_custom_threshold := word_of_int val\<rparr>\<rparr>))"

definition wt_type12_pwle_wait_time_entry ::
  "wt_type12_pwle \<Rightarrow> string option \<Rightarrow> error + wt_type12_pwle" where
  "wt_type12_pwle_wait_time_entry pwle token =
     (case parse_float token 4 0 (102375 / 100) of
        Inl e \<Rightarrow> Inl e
      | Inr val \<Rightarrow>
          let pwle1 = pwle\<lparr>p_wait := word_of_int val\<rparr>
          in Inr (pwle1\<lparr>p_wlength := p_wlength pwle1 + ucast (p_wait pwle1)\<rparr>))"

text \<open>
  The functions below take \<open>section\<close> as the index of the element of \<open>pwle->sections\<close> it
  points to.
\<close>

definition pwle_section_upd ::
  "wt_type12_pwle \<Rightarrow> nat \<Rightarrow> (wt_type12_pwle_section \<Rightarrow> wt_type12_pwle_section) \<Rightarrow>
   wt_type12_pwle" where
  "pwle_section_upd pwle idx f =
     pwle\<lparr>p_sections := (p_sections pwle)(idx := f (p_sections pwle idx))\<rparr>"

definition wt_type12_pwle_time_entry ::
  "wt_type12_pwle \<Rightarrow> string option \<Rightarrow> nat \<Rightarrow> bool \<Rightarrow> error + wt_type12_pwle \<times> bool" where
  "wt_type12_pwle_time_entry pwle token section indef =
     (case parse_float token 4 0 (1638375 / 100) of
        Inl e \<Rightarrow> Inl e
      | Inr val \<Rightarrow>
          let pwle1 = pwle_section_upd pwle section (\<lambda>s. s\<lparr>s_time := word_of_int val\<rparr>)
          in if val = 65535 then Inr (pwle1, True)
             else Inr (pwle1\<lparr>p_wlength :=
                         p_wlength pwle1 + ucast (s_time (p_sections pwle1 section))\<rparr>, indef))"

definition wt_type12_pwle_level_entry ::
  "wt_type12_pwle \<Rightarrow> string option \<Rightarrow> nat \<Rightarrow> error + wt_type12_pwle" where
  "wt_type12_pwle_level_entry pwle token section =
     (case parse_float token 2048 (- 1) (9995118 / 10000000) of
        Inl e \<Rightarrow> Inl e
      | Inr val \<Rightarrow> Inr (pwle_section_upd pwle section (\<lambda>s. s\<lparr>s_level := word_of_int val\<rparr>)))"

definition wt_type12_pwle_freq_entry ::
  "wt_type12_pwle \<Rightarrow> string option \<Rightarrow> string option \<Rightarrow> nat \<Rightarrow> error + wt_type12_pwle" where
  "wt_type12_pwle_freq_entry pwle token freq_val section =
     (case c_atoi token of
        Inl e \<Rightarrow> Inl e
      | Inr rel_val \<Rightarrow>
          if rel_val = 0 then
            (case (case parse_float freq_val 4 (1 / 4) (102375 / 100) of
                     Inl UB \<Rightarrow> Inl UB
                   | Inl e \<Rightarrow> (case c_atoi freq_val of
                                 Inl e1 \<Rightarrow> Inl e1
                               | Inr z \<Rightarrow> if z = 0 then Inr 0 else Inl e)
                   | Inr val \<Rightarrow> Inr val) of
               Inl e \<Rightarrow> Inl e
             | Inr val \<Rightarrow>
                 Inr (pwle_section_upd pwle section
                        (\<lambda>s. s\<lparr>s_flags := s_flags s OR 0x10, s_frequency := word_of_int val\<rparr>)))
          else if rel_val = 1 then
            (case parse_float freq_val 4 (- 512) (51175 / 100) of
               Inl e \<Rightarrow> Inl e
             | Inr val \<Rightarrow>
                 Inr (pwle_section_upd pwle section
                        (\<lambda>s. s\<lparr>s_flags := s_flags s OR 0x08, s_frequency := word_of_int val\<rparr>)))
          else Inl EINVAL)"

definition wt_type12_pwle_vb_target_entry ::
  "wt_type12_pwle \<Rightarrow> string option \<Rightarrow> nat \<Rightarrow> error + wt_type12_pwle" where
  "wt_type12_pwle_vb_target_entry pwle token section =
     (case parse_float token 0x7FFFFF 0 1 of
        Inl e \<Rightarrow> Inl e
      | Inr val \<Rightarrow> Inr (pwle_section_upd pwle section (\<lambda>s. s\<lparr>s_vbtarget := word_of_int val\<rparr>)))"

text \<open>All calls of \<open>dspmem_chunk_write\<close> that \<open>wt_type12_pwle_write\<close> makes, in order.\<close>

definition wt_type12_pwle_section_calls ::
  "wt_type12_pwle_section \<Rightarrow> (nat \<times> 32 word) list" where
  "wt_type12_pwle_section_calls s =
     [(16, ucast (s_time s)),
      (12, ucast (s_level s)),
      (12, ucast (s_frequency s)),
      (8, push_bit 4 (ucast (s_flags s OR 1)))] @
     (if s_flags s AND 0x20 \<noteq> 0 then [(24, s_vbtarget s)] else [])"

definition wt_type12_pwle_metadata_calls :: "wt_type12_pwle \<Rightarrow> (nat \<times> 32 word) list" where
  "wt_type12_pwle_metadata_calls pwle =
     (if p_feature pwle AND 0x400 \<noteq> 0 then
        (if svc_id (p_svc_metadata pwle) = 1
         then [(8, ucast (svc_id (p_svc_metadata pwle))),
               (8, ucast (svc_length (p_svc_metadata pwle))),
               (8, ucast (svc_mode (p_svc_metadata pwle))),
               (24, svc_braking_time (p_svc_metadata pwle))]
         else []) @
        (if ep_id (p_ep_metadata pwle) = 2
         then [(8, ep_id (p_ep_metadata pwle)),
               (8, ep_length (p_ep_metadata pwle)),
               (8, ep_payload (p_ep_metadata pwle))] @
              (if ep_length (p_ep_metadata pwle) = 1
               then [(24, ep_custom_threshold (p_ep_metadata pwle))] else [])
         else []) @
        [(24, 0xFFFFFF)]
      else [])"

definition wt_type12_pwle_calls :: "wt_type12_pwle \<Rightarrow> (nat \<times> 32 word) list" where
  "wt_type12_pwle_calls pwle =
     [(16, ucast (p_feature pwle)),
      (8, 12),
      (24, 3),
      (24, word_of_int (uint (p_nsections pwle) * 2 + p_nampsections pwle + 3)),
      (24, p_wlength pwle),
      (8, ucast (p_repeat pwle)),
      (12, ucast (p_wait pwle)),
      (8, ucast (p_nsections pwle))] @
     concat (map (\<lambda>i. wt_type12_pwle_section_calls (p_sections pwle i))
                 [0 ..< unat (p_nsections pwle)]) @
     wt_type12_pwle_metadata_calls pwle"

definition wt_type12_pwle_write :: "wt_type12_pwle \<Rightarrow> int \<Rightarrow> int \<times> 8 word list" where
  "wt_type12_pwle_write pwle sz =
     (let ch = dspmem_chunk_write_seq (dspmem_chunk_create sz) (wt_type12_pwle_calls pwle);
          ch1 = snd (dspmem_chunk_flush ch)
      in (dspmem_chunk_bytes ch1, ch_data ch1))"

text \<open>
  The local variables of \<open>wt_type12_pwle_str_to_bin\<close> that live across the iterations of
  its loop. \<open>l_section\<close> is the index \<open>section\<close> points to. \<open>l_freq_val\<close> is \<open>None\<close> as long
  as \<open>freq_val\<close> is not a pointer to a string: not yet assigned, or \<open>NULL\<close>.
\<close>

record pwle_locals =
  l_pwle :: wt_type12_pwle
  l_section :: nat
  l_t :: bool
  l_l :: bool
  l_f :: bool
  l_c :: bool
  l_b :: bool
  l_a :: bool
  l_r :: bool
  l_v :: bool
  l_indef :: bool
  l_num_vals :: nat
  l_num_segs :: nat
  l_freq_val :: "string option"

definition pwle_lift :: "pwle_locals \<Rightarrow> error + wt_type12_pwle \<Rightarrow> error + pwle_locals" where
  "pwle_lift st r = (case r of Inl e \<Rightarrow> Inl e | Inr pwle \<Rightarrow> Inr (st\<lparr>l_pwle := pwle\<rparr>))"

text \<open>
  The body of the \<open>while\<close> loop for the token \<open>tok\<close>, from the \<open>switch\<close> to the \<open>break\<close>:
  \<open>strsep(&str, ":")\<close> splits the key from the value.
\<close>

definition wt_type12_pwle_token :: "pwle_locals \<Rightarrow> string \<Rightarrow> error + pwle_locals" where
  "wt_type12_pwle_token st tok =
     (let key = fst (strsep tok '':'');
          str = snd (strsep tok '':'');
          pwle = l_pwle st;
          section = l_section st
      in case wt_type12_pwle_specifier_get key of
           PWLE_SPEC_SAVE \<Rightarrow>
             if l_num_vals st \<noteq> 0 then Inl EINVAL
             else (case wt_type12_pwle_save_entry str of Inl e \<Rightarrow> Inl e | Inr _ \<Rightarrow> Inr st)
         | PWLE_SPEC_FEATURE \<Rightarrow>
             if l_num_vals st \<noteq> 1 then Inl EINVAL
             else pwle_lift st (wt_type12_pwle_feature_entry pwle str)
         | PWLE_SPEC_REPEAT \<Rightarrow>
             if l_num_vals st \<noteq> 2 then Inl EINVAL
             else pwle_lift st (wt_type12_pwle_repeat_entry pwle str)
         | PWLE_SPEC_WAIT \<Rightarrow>
             if l_num_vals st \<noteq> 3 then Inl EINVAL
             else pwle_lift st (wt_type12_pwle_wait_time_entry pwle str)
         | PWLE_SPEC_SVC_MODE \<Rightarrow>
             if l_num_vals st \<noteq> 4 then Inl EINVAL
             else pwle_lift st (wt_type12_pwle_svc_mode_entry pwle str)
         | PWLE_SPEC_SVC_BRAKING_TIME \<Rightarrow>
             if l_num_vals st \<noteq> 5 then Inl EINVAL
             else pwle_lift st (wt_type12_pwle_svc_braking_time_entry pwle str)
         | PWLE_SPEC_EP_LENGTH \<Rightarrow>
             if l_num_vals st \<noteq> 6 then Inl EINVAL
             else pwle_lift st (wt_type12_pwle_ep_length_entry pwle str)
         | PWLE_SPEC_EP_PAYLOAD \<Rightarrow>
             if l_num_vals st \<noteq> 7 then Inl EINVAL
             else pwle_lift st (wt_type12_pwle_ep_payload_entry pwle str)
         | PWLE_SPEC_EP_THRESH \<Rightarrow>
             if l_num_vals st \<noteq> 8 then Inl EINVAL
             else pwle_lift st (wt_type12_pwle_ep_threshold_entry pwle str)
         | PWLE_SPEC_TIME \<Rightarrow>
             if 9 < l_num_vals st \<and>
                (\<not> l_t st \<or> \<not> l_l st \<or> \<not> l_f st \<or> \<not> l_c st \<or> \<not> l_b st \<or> \<not> l_a st \<or> \<not> l_v st)
             then Inl EINVAL
             else
               let st1 = (if 9 < l_num_vals st
                          then st\<lparr>l_t := False, l_l := False, l_f := False, l_c := False,
                                  l_b := False, l_a := False, l_v := False\<rparr>
                          else st)
               in (case wt_type12_pwle_time_entry pwle str section (l_indef st) of
                     Inl e \<Rightarrow> Inl e
                   | Inr (pwle1, indef1) \<Rightarrow>
                       Inr (st1\<lparr>l_pwle := pwle1, l_indef := indef1, l_t := True\<rparr>))
         | PWLE_SPEC_LEVEL \<Rightarrow>
             (case wt_type12_pwle_level_entry pwle str section of
                Inl e \<Rightarrow> Inl e
              | Inr pwle1 \<Rightarrow> Inr (st\<lparr>l_pwle := pwle1, l_l := True\<rparr>))
         | PWLE_SPEC_FREQ \<Rightarrow> Inr (st\<lparr>l_freq_val := str, l_f := True\<rparr>)
         | PWLE_SPEC_CHIRP \<Rightarrow>
             (case c_atoi str of
                Inl e \<Rightarrow> Inl e
              | Inr val \<Rightarrow>
                  if val < 0 \<or> 1 < val then Inl EINVAL
                  else Inr (st\<lparr>l_pwle :=
                              (if val \<noteq> 0
                               then pwle_section_upd pwle section (\<lambda>s. s\<lparr>s_flags := s_flags s OR 0x80\<rparr>)
                               else pwle),
                            l_c := True\<rparr>))
         | PWLE_SPEC_BRAKE \<Rightarrow>
             (case c_atoi str of
                Inl e \<Rightarrow> Inl e
              | Inr val \<Rightarrow>
                  if val < 0 \<or> 1 < val then Inl EINVAL
                  else Inr (st\<lparr>l_pwle :=
                              (if val \<noteq> 0
                               then pwle_section_upd pwle section (\<lambda>s. s\<lparr>s_flags := s_flags s OR 0x40\<rparr>)
                               else pwle),
                            l_b := True\<rparr>))
         | PWLE_SPEC_AR \<Rightarrow>
             (case c_atoi str of
                Inl e \<Rightarrow> Inl e
              | Inr val \<Rightarrow>
                  if val < 0 \<or> 1 < val then Inl EINVAL
                  else Inr (st\<lparr>l_pwle :=
                              (if val \<noteq> 0
                               then (pwle_section_upd pwle section
                                       (\<lambda>s. s\<lparr>s_flags := s_flags s OR 0x20\<rparr>))
                                    \<lparr>p_nampsections := p_nampsections pwle + 1\<rparr>
                               else pwle),
                            l_a := True\<rparr>))
         | PWLE_SPEC_RELFREQ \<Rightarrow>
             (case wt_type12_pwle_freq_entry pwle str (l_freq_val st) section of
                Inl e \<Rightarrow> Inl e
              | Inr pwle1 \<Rightarrow> Inr (st\<lparr>l_pwle := pwle1, l_r := True\<rparr>))
         | PWLE_SPEC_VBT \<Rightarrow>
             (case (if s_flags (p_sections pwle section) AND 0x20 \<noteq> 0
                    then wt_type12_pwle_vb_target_entry pwle str section else Inr pwle) of
                Inl e \<Rightarrow> Inl e
              | Inr pwle1 \<Rightarrow>
                  if 256 \<le> section + 1 then Inl UB
                  else Inr (st\<lparr>l_pwle := pwle_section_upd pwle1 (section + 1) (\<lambda>s. s\<lparr>s_flags := 0\<rparr>),
                            l_v := True,
                            l_num_segs := l_num_segs st + 1,
                            l_section := section + 1\<rparr>))
         | _ \<Rightarrow> Inl EINVAL)"

text \<open>The \<open>while\<close> loop over the tokens still to come, with its test and \<open>num_vals++\<close>.\<close>

fun wt_type12_pwle_loop :: "pwle_locals \<Rightarrow> string list \<Rightarrow> error + pwle_locals" where
  "wt_type12_pwle_loop st [] = Inr st"
| "wt_type12_pwle_loop st (tok # toks) =
     (if 1787 \<le> l_num_vals st then Inl E2BIG
      else (case wt_type12_pwle_token st tok of
              Inl e \<Rightarrow> Inl e
            | Inr st1 \<Rightarrow> wt_type12_pwle_loop (st1\<lparr>l_num_vals := l_num_vals st1 + 1\<rparr>) toks))"

text \<open>
  The locals at the first test of the loop. The argument is what the memory of the
  variable \<open>pwle\<close> holds when the function is entered: the function declares the struct
  without an initialiser and then sets \<open>wlength\<close> and the flags of section 0 only.
\<close>

definition wt_type12_pwle_init :: "wt_type12_pwle \<Rightarrow> pwle_locals" where
  "wt_type12_pwle_init pwle0 =
     \<lparr>l_pwle = pwle_section_upd (pwle0\<lparr>p_wlength := 0\<rparr>) 0 (\<lambda>s. s\<lparr>s_flags := 0\<rparr>),
      l_section = 0,
      l_t = False, l_l = False, l_f = False, l_c = False, l_b = False, l_a = False,
      l_r = False, l_v = False, l_indef = False,
      l_num_vals = 0, l_num_segs = 0, l_freq_val = None\<rparr>"

text \<open>
  The struct that \<open>wt_type12_pwle_str_to_bin\<close> hands to \<open>wt_type12_pwle_write\<close>.
  \<open>strlen(full_str)\<close> runs up to the first NUL that \<open>strtok\<close> and \<open>strsep\<close> have put into
  the string, behind the key of the first token; delimiters in front of the first token
  stay as they are.
\<close>

definition wt_type12_pwle_parse :: "wt_type12_pwle \<Rightarrow> string \<Rightarrow> error + wt_type12_pwle" where
  "wt_type12_pwle_parse pwle0 full_str =
     (case wt_type12_pwle_loop (wt_type12_pwle_init pwle0)
             (strtok_tokens full_str [CHR '','', CHR 0x0A]) of
        Inl e \<Rightarrow> Inl e
      | Inr st \<Rightarrow>
          if \<not> l_t st \<or> \<not> l_l st \<or> \<not> l_f st \<or> \<not> l_c st \<or> \<not> l_b st \<or> \<not> l_a st \<or>
             \<not> l_v st \<or> \<not> l_r st
          then Inl EINVAL
          else
            let pwle = (l_pwle st)
                  \<lparr>p_nsections := of_nat (l_num_segs st),
                   p_str_len := of_nat
                     (length (takeWhile (\<lambda>c. c \<in> set [CHR '','', CHR 0x0A]) full_str) +
                      length (takeWhile (\<lambda>c. c \<notin> set [CHR '','', CHR 0x0A, CHR '':''])
                                (dropWhile (\<lambda>c. c \<in> set [CHR '','', CHR 0x0A]) full_str)))\<rparr>;
                w1 = p_wlength pwle * (ucast (p_repeat pwle) + 1);
                w2 = w1 - ucast (p_wait pwle);
                w3 = w2 * 2;
                w4 = (if l_indef st then w3 OR 0x00400000 else w3)
            in Inr (pwle\<lparr>p_wlength := w4 OR 0x00800000\<rparr>))"

definition wt_type12_pwle_str_to_bin ::
  "wt_type12_pwle \<Rightarrow> string \<Rightarrow> error + int \<times> 8 word list" where
  "wt_type12_pwle_str_to_bin pwle0 full_str =
     (case wt_type12_pwle_parse pwle0 full_str of
        Inl e \<Rightarrow> Inl e
      | Inr pwle \<Rightarrow> Inr (wt_type12_pwle_write pwle 2302))"

subsection \<open>The dispatcher\<close>

text \<open>
  What the uninitialised locals of the two compilers hold on entry: \<open>bank\<close> in
  \<open>wt_type10_comp_waveform_get\<close> (at its first call) and \<open>pwle\<close> in
  \<open>wt_type12_pwle_str_to_bin\<close>.
\<close>

record stack_contents =
  g_bank :: string
  g_pwle :: wt_type12_pwle

definition get_owt_data :: "stack_contents \<Rightarrow> string \<Rightarrow> error + int \<times> 8 word list" where
  "get_owt_data g full_str =
     (if char_at0 full_str = CHR ''S'' then wt_type12_pwle_str_to_bin (g_pwle g) full_str
      else wt_type10_comp_str_to_bin (g_bank g) full_str)"

section \<open>Notions used to state the properties\<close>

subsection \<open>The bit stream\<close>

text \<open>
  The low \<open>n\<close> bits of a value, most significant first; the byte that eight bits spell;
  and \<open>n\<close> words of 24 bits as the writer stores them: one zero byte, then the 24 bits in
  three bytes, most significant first. \<open>chunk_pending\<close> are the bits the accumulator
  holds; whatever else \<open>ch_cache\<close> holds above them is shifted out before it is stored.
\<close>

primrec word_bits :: "nat \<Rightarrow> 32 word \<Rightarrow> bool list" where
  "word_bits 0 w = []"
| "word_bits (Suc n) w = bit w n # word_bits n w"

definition bits_byte :: "bool list \<Rightarrow> 8 word" where
  "bits_byte bs = horner_sum of_bool 2 (rev bs)"

primrec pack_words :: "nat \<Rightarrow> bool list \<Rightarrow> 8 word list" where
  "pack_words 0 bs = []"
| "pack_words (Suc n) bs =
     [0, bits_byte (take 8 bs), bits_byte (take 8 (drop 8 bs)), bits_byte (take 8 (drop 16 bs))] @
     pack_words n (drop 24 bs)"

definition chunk_pending :: "dspmem_chunk \<Rightarrow> bool list" where
  "chunk_pending ch = word_bits (ch_cachebits ch) (ch_cache ch)"

text \<open>
  \<open>no_stop ch k\<close>: none of the next \<open>k\<close> words finds \<open>data\<close> equal to \<open>max\<close>, the one test
  \<open>dspmem_chunk_end\<close> makes. \<open>stream_shape\<close> and \<open>stream_content\<close> relate a chunk to the
  chunk after \<open>n\<close> more bits: the counters, and the bytes and the pending bits.
\<close>

definition no_stop :: "dspmem_chunk \<Rightarrow> nat \<Rightarrow> bool" where
  "no_stop ch k = (\<forall>j<k. int (length (ch_data ch)) + 4 * int j \<noteq> ch_max ch)"

definition stream_shape :: "dspmem_chunk \<Rightarrow> nat \<Rightarrow> dspmem_chunk \<Rightarrow> bool" where
  "stream_shape ch n ch' =
     (ch_max ch' = ch_max ch \<and>
      ch_cachebits ch' = (ch_cachebits ch + n) mod 24 \<and>
      ch_bytes ch' = ch_bytes ch + 4 * int ((ch_cachebits ch + n) div 24) \<and>
      length (ch_data ch') = length (ch_data ch) + 4 * ((ch_cachebits ch + n) div 24))"

definition stream_content :: "dspmem_chunk \<Rightarrow> bool list \<Rightarrow> dspmem_chunk \<Rightarrow> bool" where
  "stream_content ch bits ch' =
     (ch_data ch' = ch_data ch @
        pack_words ((ch_cachebits ch + length bits) div 24) (chunk_pending ch @ bits) \<and>
      chunk_pending ch' =
        drop (24 * ((ch_cachebits ch + length bits) div 24)) (chunk_pending ch @ bits))"

text \<open>
  For a list of calls: the number of bits, the bits, and whether no value has a bit set
  above its width at a moment when the accumulator holds earlier bits (such a bit is
  ORed onto them).
\<close>

definition calls_nbits :: "(nat \<times> 32 word) list \<Rightarrow> nat" where
  "calls_nbits calls = sum_list (map fst calls)"

definition calls_bits :: "(nat \<times> 32 word) list \<Rightarrow> bool list" where
  "calls_bits calls = concat (map (\<lambda>(n, v). word_bits n v) calls)"

fun calls_clean :: "nat \<Rightarrow> (nat \<times> 32 word) list \<Rightarrow> bool" where
  "calls_clean cb [] = True"
| "calls_clean cb ((n, v) # cs) =
     ((cb = 0 \<or> drop_bit n v = 0) \<and> calls_clean ((cb + n) mod 24) cs)"

text \<open>
  The layout the Composite encoder is to produce, field by field: every word of 24 bits
  stands in four bytes behind a zero byte. A section is amplitude, index, repeat; then
  flags and the delay; then, where the flags say so, a pad byte and the duration.
\<close>

definition comp_section_bytes :: "wt_type10_comp_section \<Rightarrow> 8 word list" where
  "comp_section_bytes s =
     [0, w_amplitude (cs_wvfrm s), w_index (cs_wvfrm s), cs_repeat s,
      0, cs_flags s, ucast (drop_bit 8 (cs_delay s)), ucast (cs_delay s)] @
     (if cs_flags s AND 0x80 \<noteq> 0
      then [0, 0, ucast (drop_bit 8 (w_duration (cs_wvfrm s))), ucast (w_duration (cs_wvfrm s))]
      else [])"






text \<open>Memory that holds zero bytes, as one possible content of the uninitialised locals.\<close>

definition wt_type12_pwle_zero :: wt_type12_pwle where
  "wt_type12_pwle_zero =
     \<lparr>p_feature = 0, p_str_len = 0, p_wlength = 0, p_repeat = 0, p_wait = 0,
      p_nsections = 0, p_nampsections = 0,
      p_svc_metadata = \<lparr>svc_id = 0, svc_length = 0, svc_mode = 0, svc_braking_time = 0\<rparr>,
      p_ep_metadata = \<lparr>ep_id = 0, ep_length = 0, ep_payload = 0, ep_custom_threshold = 0\<rparr>,
      p_sections = (\<lambda>_. \<lparr>s_time = 0, s_level = 0, s_frequency = 0, s_flags = 0,
                          s_vbtarget = 0\<rparr>)\<rparr>"

definition stack_zero :: stack_contents where
  "stack_zero = \<lparr>g_bank = [], g_pwle = wt_type12_pwle_zero\<rparr>"

text \<open>
  A token of a PWLE string: its key as the compiler classifies it, its value, and what
  a \<open>T\<close> token contributes to the length: its raw time as stored in the 16 bit field,
  nothing if that is the indefinite value 65535.
\<close>

definition pwle_tok_key :: "string \<Rightarrow> wt_type12_pwle_specifier" where
  "pwle_tok_key tok = wt_type12_pwle_specifier_get (fst (strsep tok '':''))"

definition pwle_tok_val :: "string \<Rightarrow> string option" where
  "pwle_tok_val tok = snd (strsep tok '':'')"





subsection \<open>What a Composite string says\<close>








text \<open>
  The sections: \<open>q_closed\<close> are those that are complete, in order, \<open>q_open\<close> is the one that
  the next token may still add to. A waveform token closes a section that has a waveform
  or a delay, a delay token one that has a delay, an inner loop start one that has
  either; an inner loop stop stamps its count on the open section and closes it. At the
  end of the string an open section that has a waveform or a delay is closed.
\<close>

record composite_queue =
  q_closed :: "wt_type10_comp_section list"
  q_open :: wt_type10_comp_section
  q_repeat :: "8 word"
  q_ep :: wt_ep_metadata

definition composite_section_empty :: wt_type10_comp_section where
  "composite_section_empty =
     \<lparr>cs_repeat = 0, cs_flags = 0,
      cs_wvfrm = \<lparr>w_index = 0, w_amplitude = 0, w_duration = 0\<rparr>, cs_delay = 0\<rparr>"








text \<open>The struct of the compiler holds the sections read.\<close>

definition comp_holds :: "wt_type10_comp \<Rightarrow> composite_queue \<Rightarrow> bool" where
  "comp_holds cmp q =
     (unat (c_nsections cmp) = length (q_closed q) \<and>
      (\<forall>i < length (q_closed q). c_sections cmp i = q_closed q ! i) \<and>
      c_sections cmp (length (q_closed q)) = q_open q \<and>
      (\<forall>i > length (q_closed q). c_sections cmp i = composite_section_empty) \<and>
      c_repeat cmp = q_repeat q \<and> c_ep_metadata cmp = q_ep q \<and>
      (w_amplitude (cs_wvfrm (q_open q)) = 0 \<longrightarrow> cs_flags (q_open q) = 0))"

text \<open>
  The bit stream that a buffer holds: of every four bytes the last three, most
  significant bit first.
\<close>

fun buffer_bits :: "8 word list \<Rightarrow> bool list" where
  "buffer_bits (p # a # b # c # r) =
     word_bits 8 (ucast a) @ word_bits 8 (ucast b) @ word_bits 8 (ucast c) @ buffer_bits r"
| "buffer_bits _ = []"

section \<open>Properties of the bitstream writer\<close>

lemma length_word_bits [simp]: "length (word_bits n w) = n"
  by (induction n) auto

lemma word_bits_rev: "word_bits n w = rev (map (bit w) [0..<n])"
  by (induction n) auto

lemma word_bits_cong: "(\<And>i. i < n \<Longrightarrow> bit w i = bit w' i) \<Longrightarrow> word_bits n w = word_bits n w'"
  by (induction n) auto

lemma drop_word_bits: "drop k (word_bits n w) = word_bits (n - k) w"
proof (induction n arbitrary: k)
  case 0 then show ?case by simp
next
  case (Suc n)
  show ?case
  proof (cases k)
    case 0 then show ?thesis by simp
  next
    case (Suc k') then show ?thesis using Suc.IH [of k'] by simp
  qed
qed

lemma word_bits_add: "word_bits (a + b) w = word_bits a (drop_bit b w) @ word_bits b w"
  by (induction a) (auto simp: bit_drop_bit_eq add.commute)

lemma take_word_bits: "k \<le> n \<Longrightarrow> take k (word_bits n w) = word_bits k (drop_bit (n - k) w)"
  using word_bits_add [of k "n - k" w] by simp

lemma word_bits_merge:
  assumes "a + b \<le> 32" and "\<And>i. b \<le> i \<Longrightarrow> i < a + b \<Longrightarrow> \<not> bit v i"
  shows "word_bits (a + b) (push_bit b c OR v) = word_bits a c @ word_bits b v"
proof -
  have "word_bits a (drop_bit b (push_bit b c OR v)) = word_bits a c"
  proof (rule word_bits_cong)
    fix i assume "i < a"
    then show "bit (drop_bit b (push_bit b c OR v)) i = bit c i"
      using assms by (auto simp: bit_simps)
  qed
  moreover have "word_bits b (push_bit b c OR v) = word_bits b v"
    by (rule word_bits_cong) (auto simp: bit_simps)
  ultimately show ?thesis by (simp add: word_bits_add)
qed

lemma bits_byte_word_bits: "bits_byte (word_bits 8 w) = ucast w"
proof -
  have eq: "map (bit w) [0..<8] = map (bit (ucast w :: 8 word)) [0..<8]"
    by (rule map_cong) (auto simp: bit_simps)
  have "bits_byte (word_bits 8 w) = horner_sum of_bool 2 (map (bit w) [0..<8])"
    by (simp add: bits_byte_def word_bits_rev)
  also have "\<dots> = horner_sum of_bool 2 (map (bit (ucast w :: 8 word)) [0..<8])"
    by (simp only: eq)
  also have "\<dots> = take_bit 8 (ucast w :: 8 word)"
    by (rule horner_sum_bit_eq_take_bit)
  finally show ?thesis by (simp add: take_bit_word_eq_self)
qed

lemma pack_words_24: "pack_words (Suc 0) (word_bits 24 c @ bs) =
   [0, ucast (drop_bit 16 c), ucast (drop_bit 8 c), ucast c]"
  by (simp add: take_word_bits drop_word_bits bits_byte_word_bits)

lemma store_4:
  "dspmem_chunk_store 4 (ch\<lparr>ch_cache := c AND 0xFFFFFF\<rparr>) =
     ch\<lparr>ch_data := ch_data ch @ [0, ucast (drop_bit 16 c), ucast (drop_bit 8 c), ucast c],
        ch_cache := 0\<rparr>"
proof -
  have four: "(4::nat) = Suc (Suc (Suc (Suc 0)))" by simp
  have m: "(255 :: 32 word) = mask 8" by (simp add: mask_eq_exp_minus_1)
  have e1: "(ucast (drop_bit 24 (push_bit 8 c) AND (255 :: 32 word)) :: 8 word) = ucast (drop_bit 16 c)"
    unfolding m by (rule bit_word_eqI) (auto simp: bit_simps)
  have e2: "(ucast (drop_bit 24 (push_bit 16 c) AND (255 :: 32 word)) :: 8 word) = ucast (drop_bit 8 c)"
    unfolding m by (rule bit_word_eqI) (auto simp: bit_simps)
  have e3: "(ucast (drop_bit 24 (push_bit 24 c) AND (255 :: 32 word)) :: 8 word) = ucast c"
    unfolding m by (rule bit_word_eqI) (auto simp: bit_simps)
  show ?thesis
    by (subst four) (simp add: e1 e2 e3)
qed

lemma pack_words_add:
  "pack_words (m + n) bs = pack_words m bs @ pack_words n (drop (24 * m) bs)"
  by (induction m arbitrary: bs) (auto simp: add.commute)

lemma pack_words_append:
  "24 * n \<le> length bs \<Longrightarrow> pack_words n (bs @ cs) = pack_words n bs"
  by (induction n arbitrary: bs) auto

lemma length_pack_words [simp]: "length (pack_words n bs) = 4 * n"
  by (induction n arbitrary: bs) auto

lemma pack_words_Suc_24:
  "pack_words (Suc n) (word_bits 24 c @ bs) =
     [0, ucast (drop_bit 16 c), ucast (drop_bit 8 c), ucast c] @ pack_words n bs"
  by (simp add: take_word_bits drop_word_bits bits_byte_word_bits)

lemma write_fits:
  assumes "ch_cachebits ch + nbits < 24"
  shows "dspmem_chunk_write ch nbits val =
           (None, ch\<lparr>ch_cache := push_bit nbits (ch_cache ch) OR val,
                      ch_cachebits := ch_cachebits ch + nbits\<rparr>)"
  using assms by (subst dspmem_chunk_write.simps) (auto simp add: Let_def min_def)

lemma write_full:
  assumes "ch_cachebits ch < 24" "24 \<le> ch_cachebits ch + nbits"
    and "int (length (ch_data ch)) \<noteq> ch_max ch"
  shows "dspmem_chunk_write ch nbits val =
     (let nwrite = 24 - ch_cachebits ch;
          c1 = push_bit nwrite (ch_cache ch) OR drop_bit (nbits - nwrite) val;
          ch3 = ch\<lparr>ch_data := ch_data ch @ [0, ucast (drop_bit 16 c1), ucast (drop_bit 8 c1), ucast c1],
                   ch_cache := 0, ch_bytes := ch_bytes ch + 4, ch_cachebits := 0\<rparr>
      in if nbits - nwrite \<noteq> 0 then dspmem_chunk_write ch3 (nbits - nwrite) val else (None, ch3))"
  using assms
  by (subst dspmem_chunk_write.simps)
     (auto simp add: Let_def min_def dspmem_chunk_end_def store_4 simp del: dspmem_chunk_store.simps)

lemma clean_bits:
  assumes "cb = 0 \<or> drop_bit nbits (val :: 32 word) = 0" "cb + nw = 24" "nw \<le> nbits"
  shows "word_bits 24 (push_bit nw c OR drop_bit (nbits - nw) val) =
         word_bits cb c @ word_bits nw (drop_bit (nbits - nw) val)"
proof -
  have "word_bits (cb + nw) (push_bit nw c OR drop_bit (nbits - nw) val) =
         word_bits cb c @ word_bits nw (drop_bit (nbits - nw) val)"
  proof (rule word_bits_merge)
    show "cb + nw \<le> 32" using assms by simp
  next
    fix i assume i: "nw \<le> i" "i < cb + nw"
    from assms(1) show "\<not> bit (drop_bit (nbits - nw) val) i"
    proof
      assume "cb = 0" with i show ?thesis by simp
    next
      assume z: "drop_bit nbits val = 0"
      have "bit (drop_bit (nbits - nw) val) i = bit (drop_bit nbits val) (i - nw)"
        using i assms(3) by (simp add: bit_drop_bit_eq)
      then show ?thesis using z by simp
    qed
  qed
  then show ?thesis using assms by simp
qed

lemma dspmem_chunk_write_stream:
  assumes "ch_cachebits ch < 24"
    and "no_stop ch ((ch_cachebits ch + nbits) div 24)"
  shows "fst (dspmem_chunk_write ch nbits val) = None \<and>
         stream_shape ch nbits (snd (dspmem_chunk_write ch nbits val)) \<and>
         (ch_cachebits ch = 0 \<or> drop_bit nbits val = 0 \<longrightarrow>
            stream_content ch (word_bits nbits val) (snd (dspmem_chunk_write ch nbits val)))"
  using assms
proof (induction nbits arbitrary: ch rule: less_induct)
  case (less nbits)
  let ?cb = "ch_cachebits ch"
  show ?case
  proof (cases "?cb + nbits < 24")
    case True
    have clean: "word_bits (?cb + nbits) (push_bit nbits (ch_cache ch) OR val) =
                 word_bits ?cb (ch_cache ch) @ word_bits nbits val"
      if "?cb = 0 \<or> drop_bit nbits val = 0"
    proof (rule word_bits_merge)
      show "?cb + nbits \<le> 32" using True by simp
    next
      fix i assume i: "nbits \<le> i" "i < ?cb + nbits"
      from that show "\<not> bit val i"
      proof
        assume "?cb = 0" with i show ?thesis by simp
      next
        assume z: "drop_bit nbits val = 0"
        have "bit val i = bit (drop_bit nbits val) (i - nbits)"
          using i by (simp add: bit_drop_bit_eq)
        then show ?thesis using z by simp
      qed
    qed
    show ?thesis
      using True clean
      by (simp add: write_fits stream_shape_def stream_content_def chunk_pending_def)
  next
    case False
    define nw where "nw = 24 - ?cb"
    define n1 where "n1 = nbits - nw"
    define c1 where "c1 = push_bit nw (ch_cache ch) OR drop_bit n1 val"
    define ch3 where "ch3 = ch\<lparr>ch_data := ch_data ch @ [0, ucast (drop_bit 16 c1), ucast (drop_bit 8 c1), ucast c1],
                   ch_cache := 0, ch_bytes := ch_bytes ch + 4, ch_cachebits := 0\<rparr>"
    have cb: "?cb < 24" by (rule less.prems)
    have nw: "nw \<le> nbits" "?cb + nw = 24" "0 < nw" using False cb by (auto simp: nw_def)
    have split: "?cb + nbits = 24 + n1" using nw by (simp add: n1_def)
    have K: "(?cb + nbits) div 24 = Suc (n1 div 24)" "(?cb + nbits) mod 24 = n1 mod 24"
      by (simp_all add: split)
    from less.prems(2) have ns0: "int (length (ch_data ch)) \<noteq> ch_max ch"
      unfolding no_stop_def K by (auto dest: spec [of _ 0])
    have eq: "dspmem_chunk_write ch nbits val =
         (if n1 \<noteq> 0 then dspmem_chunk_write ch3 n1 val else (None, ch3))"
      using write_full [OF cb _ ns0, of nbits val] False
      by (simp add: Let_def nw_def n1_def c1_def ch3_def)
    have bits: "chunk_pending ch @ word_bits nbits val = word_bits 24 c1 @ word_bits n1 val"
      if "?cb = 0 \<or> drop_bit nbits val = 0"
    proof -
      have "word_bits nbits val = word_bits nw (drop_bit n1 val) @ word_bits n1 val"
        using word_bits_add [of nw n1 val] nw by (simp add: n1_def)
      moreover have "word_bits 24 c1 = word_bits ?cb (ch_cache ch) @ word_bits nw (drop_bit n1 val)"
        unfolding c1_def n1_def by (rule clean_bits [OF that nw(2) nw(1)])
      ultimately show ?thesis by (simp add: chunk_pending_def)
    qed
    show ?thesis
    proof (cases "n1 = 0")
      case True
      have "stream_shape ch nbits ch3"
        using K True by (simp add: stream_shape_def ch3_def)
      moreover have "stream_content ch (word_bits nbits val) ch3"
        if "?cb = 0 \<or> drop_bit nbits val = 0"
        using bits [OF that] K True pack_words_Suc_24 [of 0 c1 "[]"]
        by (simp add: stream_content_def ch3_def chunk_pending_def)
      ultimately show ?thesis using eq True by simp
    next
      case n1: False
      have lt: "n1 < nbits" using nw by (simp add: n1_def)
      have ns3: "no_stop ch3 ((ch_cachebits ch3 + n1) div 24)"
        unfolding no_stop_def
      proof (intro allI impI)
        fix j assume "j < (ch_cachebits ch3 + n1) div 24"
        then have "Suc j < (?cb + nbits) div 24" by (simp add: K ch3_def)
        with less.prems(2) have "int (length (ch_data ch)) + 4 * int (Suc j) \<noteq> ch_max ch"
          unfolding no_stop_def by blast
        then show "int (length (ch_data ch3)) + 4 * int j \<noteq> ch_max ch3"
          by (simp add: ch3_def)
      qed
      have cb3: "ch_cachebits ch3 < 24" by (simp add: ch3_def)
      note IH = less.IH [OF lt cb3 ns3]
      let ?r = "dspmem_chunk_write ch3 n1 val"
      from IH have r1: "fst ?r = None" and r2: "stream_shape ch3 n1 (snd ?r)"
        and r3: "stream_content ch3 (word_bits n1 val) (snd ?r)"
        by (simp_all add: ch3_def)
      have "stream_shape ch nbits (snd ?r)"
        using r2 K by (simp add: stream_shape_def ch3_def)
      moreover have "stream_content ch (word_bits nbits val) (snd ?r)"
        if "?cb = 0 \<or> drop_bit nbits val = 0"
        using r3 bits [OF that] K pack_words_Suc_24 [of "n1 div 24" c1 "word_bits n1 val"]
        by (simp add: stream_content_def ch3_def chunk_pending_def)
      ultimately show ?thesis using eq n1 r1 by simp
    qed
  qed
qed

lemma length_calls_bits [simp]: "length (calls_bits calls) = calls_nbits calls"
  by (induction calls) (auto simp: calls_bits_def calls_nbits_def)

lemma div24_add: "(a + b) div 24 = a div 24 + (a mod 24 + b) div (24::nat)"
  by (simp add: div_add1_eq [of a b 24] div_add1_eq [of "a mod 24" b 24])

lemma no_stop_mono: "no_stop ch k \<Longrightarrow> j \<le> k \<Longrightarrow> no_stop ch j"
  by (auto simp: no_stop_def)

lemma no_stop_shift:
  assumes "no_stop ch ((ch_cachebits ch + n + m) div 24)" "stream_shape ch n ch1"
  shows "no_stop ch1 ((ch_cachebits ch1 + m) div 24)"
  unfolding no_stop_def
proof (intro allI impI)
  fix j assume j: "j < (ch_cachebits ch1 + m) div 24"
  let ?k1 = "(ch_cachebits ch + n) div 24"
  have "(ch_cachebits ch + n + m) div 24 = ?k1 + (ch_cachebits ch1 + m) div 24"
    using assms(2) div24_add [of "ch_cachebits ch + n" m] by (simp add: stream_shape_def)
  with j have "?k1 + j < (ch_cachebits ch + n + m) div 24" by simp
  with assms(1) have "int (length (ch_data ch)) + 4 * int (?k1 + j) \<noteq> ch_max ch"
    unfolding no_stop_def by blast
  then show "int (length (ch_data ch1)) + 4 * int j \<noteq> ch_max ch1"
    using assms(2) by (simp add: stream_shape_def)
qed

lemma stream_shape_trans:
  assumes "stream_shape ch n ch1" "stream_shape ch1 m ch2"
  shows "stream_shape ch (n + m) ch2"
  using assms div24_add [of "ch_cachebits ch + n" m]
  by (simp add: stream_shape_def mod_add_left_eq add.assoc)

lemma stream_content_trans:
  assumes "stream_content ch b1 ch1" "stream_content ch1 b2 ch2"
    and "ch_cachebits ch1 = (ch_cachebits ch + length b1) mod 24"
  shows "stream_content ch (b1 @ b2) ch2"
proof -
  let ?P = "chunk_pending ch"
  let ?k1 = "(ch_cachebits ch + length b1) div 24"
  let ?k2 = "(ch_cachebits ch1 + length b2) div 24"
  have len: "length (?P @ b1) = ch_cachebits ch + length b1"
    by (simp add: chunk_pending_def)
  have le: "24 * ?k1 \<le> length (?P @ b1)" unfolding len by simp
  have k: "(ch_cachebits ch + length (b1 @ b2)) div 24 = ?k1 + ?k2"
    using div24_add [of "ch_cachebits ch + length b1" "length b2"] assms(3)
    by (simp add: add.assoc)
  have p1: "chunk_pending ch1 = drop (24 * ?k1) (?P @ b1)"
    using assms(1) by (simp add: stream_content_def)
  have d: "drop (24 * ?k1) (?P @ b1 @ b2) = chunk_pending ch1 @ b2"
    using le unfolding p1 by (metis append.assoc drop_append diff_is_0_eq drop0)
  have "pack_words (?k1 + ?k2) (?P @ b1 @ b2) =
        pack_words ?k1 (?P @ b1) @ pack_words ?k2 (chunk_pending ch1 @ b2)"
    using pack_words_add [of ?k1 ?k2 "?P @ b1 @ b2"] pack_words_append [OF le, of b2] d
    by simp
  moreover have "drop (24 * (?k1 + ?k2)) (?P @ b1 @ b2) = drop (24 * ?k2) (chunk_pending ch1 @ b2)"
    using d by (metis add.commute distrib_left drop_drop)
  ultimately show ?thesis
    using assms(1,2) unfolding stream_content_def k by simp
qed

lemma dspmem_chunk_write_seq_stream:
  assumes "ch_cachebits ch < 24"
    and "no_stop ch ((ch_cachebits ch + calls_nbits calls) div 24)"
  shows "stream_shape ch (calls_nbits calls) (dspmem_chunk_write_seq ch calls) \<and>
         (calls_clean (ch_cachebits ch) calls \<longrightarrow>
            stream_content ch (calls_bits calls) (dspmem_chunk_write_seq ch calls))"
  using assms
proof (induction calls arbitrary: ch)
  case Nil
  then show ?case
    by (simp add: dspmem_chunk_write_seq_def calls_nbits_def calls_bits_def
        stream_shape_def stream_content_def)
next
  case (Cons c cs)
  obtain n v where c: "c = (n, v)" by (cases c)
  let ?ch1 = "snd (dspmem_chunk_write ch n v)"
  have nb: "calls_nbits (c # cs) = n + calls_nbits cs" by (simp add: c calls_nbits_def)
  have ns: "no_stop ch ((ch_cachebits ch + n) div 24)"
    by (rule no_stop_mono [OF Cons.prems(2)]) (simp add: nb div_le_mono)
  from dspmem_chunk_write_stream [OF Cons.prems(1) ns, of v]
  have s1: "stream_shape ch n ?ch1"
    and c1: "ch_cachebits ch = 0 \<or> drop_bit n v = 0 \<Longrightarrow> stream_content ch (word_bits n v) ?ch1"
    by simp_all
  have cb1: "ch_cachebits ?ch1 < 24" using s1 by (simp add: stream_shape_def)
  have ns1: "no_stop ?ch1 ((ch_cachebits ?ch1 + calls_nbits cs) div 24)"
    using no_stop_shift [OF _ s1, of "calls_nbits cs"] Cons.prems(2) by (simp add: nb add.assoc)
  note IH = Cons.IH [OF cb1 ns1]
  have seq: "dspmem_chunk_write_seq ch (c # cs) = dspmem_chunk_write_seq ?ch1 cs"
    by (simp add: dspmem_chunk_write_seq_def c)
  have "stream_shape ch (calls_nbits (c # cs)) (dspmem_chunk_write_seq ?ch1 cs)"
    unfolding nb using s1 IH by (blast intro: stream_shape_trans)
  moreover have "stream_content ch (calls_bits (c # cs)) (dspmem_chunk_write_seq ?ch1 cs)"
    if cl: "calls_clean (ch_cachebits ch) (c # cs)"
  proof -
    from cl have a: "ch_cachebits ch = 0 \<or> drop_bit n v = 0"
      and b: "calls_clean (ch_cachebits ?ch1) cs"
      using s1 by (simp_all add: c stream_shape_def)
    have "stream_content ch (word_bits n v @ calls_bits cs) (dspmem_chunk_write_seq ?ch1 cs)"
      using c1 [OF a] IH b s1
      by (intro stream_content_trans [where ?ch1.0 = ?ch1]) (simp_all add: stream_shape_def)
    then show ?thesis by (simp add: c calls_bits_def)
  qed
  ultimately show ?case unfolding seq by blast
qed

section \<open>The claims about the writer\<close>

text \<open>
  Claim C1, as the specification states it: whenever the accumulator reaches 24 pending
  bits the writer emits exactly 3 bytes and the output advances by 3. The code runs its
  store loop \<open>sizeof(ch->cache)\<close> = 4 times and adds 4 to \<open>bytes\<close>: a single write of 24
  bits into a fresh chunk stores the four bytes \<open>00 AB CD EF\<close>.
\<close>

theorem dspmem_chunk_write_three_bytes_counterexample:
  "dspmem_chunk_write (dspmem_chunk_create 1152) 24 0xABCDEF =
     (None, \<lparr>ch_data = [0, 0xAB, 0xCD, 0xEF], ch_max = 1152, ch_bytes = 4,
             ch_cache = 0, ch_cachebits = 0\<rparr>) \<and>
   length [0, 0xAB, 0xCD, 0xEF :: 8 word] \<noteq> 3"
  by (simp add: write_full dspmem_chunk_create_def)

text \<open>
  Claim C1, amended: a write of \<open>nbits\<close> bits to a chunk with fewer than 24 pending bits
  completes \<open>(pending + nbits) div 24\<close> words. For each of them it stores exactly 4 bytes,
  a zero byte and then the 24 accumulated bits most significant first, adds 4 to the
  byte count, empties the accumulator and goes on with the bits that are left; these
  stay pending. This holds as long as no completed word finds \<open>data\<close> equal to \<open>max\<close>,
  and for a value that has no bit set above its width (or an empty accumulator).
\<close>

theorem dspmem_chunk_write_emits_padded_words:
  assumes "ch_cachebits ch < 24"
    and "no_stop ch ((ch_cachebits ch + nbits) div 24)"
    and "ch_cachebits ch = 0 \<or> drop_bit nbits val = 0"
  shows "fst (dspmem_chunk_write ch nbits val) = None \<and>
         ch_data (snd (dspmem_chunk_write ch nbits val)) =
           ch_data ch @ pack_words ((ch_cachebits ch + nbits) div 24)
                                   (chunk_pending ch @ word_bits nbits val) \<and>
         length (ch_data (snd (dspmem_chunk_write ch nbits val))) =
           length (ch_data ch) + 4 * ((ch_cachebits ch + nbits) div 24) \<and>
         ch_bytes (snd (dspmem_chunk_write ch nbits val)) =
           ch_bytes ch + 4 * int ((ch_cachebits ch + nbits) div 24) \<and>
         ch_cachebits (snd (dspmem_chunk_write ch nbits val)) = (ch_cachebits ch + nbits) mod 24 \<and>
         chunk_pending (snd (dspmem_chunk_write ch nbits val)) =
           drop (24 * ((ch_cachebits ch + nbits) div 24)) (chunk_pending ch @ word_bits nbits val)"
  using dspmem_chunk_write_stream [OF assms(1,2), of val] assms(3)
  by (simp add: stream_shape_def stream_content_def)

text \<open>
  The theorem at a chunk that holds the 16 bits \<open>1234\<close>, for a write of the 16 bits
  \<open>ABCD\<close>: one word is completed and stored as \<open>00 12 34 AB\<close>, 8 bits stay pending.
\<close>

theorem dspmem_chunk_write_emits_padded_words_witness:
  "ch_data (snd (dspmem_chunk_write
      (snd (dspmem_chunk_write (dspmem_chunk_create 1152) 16 0x1234)) 16 0xABCD)) =
     [0, 0x12, 0x34, 0xAB] \<and>
   ch_bytes (snd (dspmem_chunk_write
      (snd (dspmem_chunk_write (dspmem_chunk_create 1152) 16 0x1234)) 16 0xABCD)) = 4 \<and>
   ch_cachebits (snd (dspmem_chunk_write
      (snd (dspmem_chunk_write (dspmem_chunk_create 1152) 16 0x1234)) 16 0xABCD)) = 8"
proof -
  let ?ch = "snd (dspmem_chunk_write (dspmem_chunk_create 1152) 16 0x1234)"
  have ch: "?ch = \<lparr>ch_data = [], ch_max = 1152, ch_bytes = 0, ch_cache = 0x1234, ch_cachebits = 16\<rparr>"
    by (simp add: write_fits dspmem_chunk_create_def)
  have h1: "ch_cachebits ?ch < 24" by (simp add: ch)
  have h2: "no_stop ?ch ((ch_cachebits ?ch + 16) div 24)" by (simp add: ch no_stop_def)
  have h3: "ch_cachebits ?ch = 0 \<or> drop_bit 16 (0xABCD :: 32 word) = 0"
    by (simp add: drop_bit_eq_div)
  have pw: "pack_words (Suc 0) (chunk_pending ?ch @ word_bits 16 0xABCD) = [0, 0x12, 0x34, 0xAB]"
    unfolding ch by (simp add: chunk_pending_def bits_byte_def numeral_eq_Suc)
  show ?thesis
    using dspmem_chunk_write_emits_padded_words [OF h1 h2 h3] pw
    by (simp add: ch)
qed

lemma calls_nbits_replicate: "calls_nbits (replicate n (a, v)) = n * a"
  by (simp add: calls_nbits_def sum_list_replicate)

text \<open>
  Claim C3: the cursor never passes the capacity, a write that would pass it fails with
  \<open>ENOSPC\<close>. \<open>dspmem_chunk_write\<close> makes the test \<open>data == max\<close> once per word of 4 bytes,
  so it only ever stops at a capacity that is a multiple of 4. \<open>wt_type12_pwle_write\<close>
  is called with \<open>WT_TYPE12_PWLE_BYTES_MAX\<close> = 2302: in a chunk of that capacity the
  576th word of 24 bits is stored at the offsets 2300 to 2303 and the cursor stands at
  2304.
\<close>

theorem dspmem_chunk_write_seq_overruns_2302:
  "int (length (ch_data (dspmem_chunk_write_seq (dspmem_chunk_create 2302)
                           (replicate 576 (24, 0))))) = 2304 \<and>
   ch_max (dspmem_chunk_write_seq (dspmem_chunk_create 2302) (replicate 576 (24, 0))) = 2302"
proof -
  let ?ch = "dspmem_chunk_create 2302"
  have cb: "ch_cachebits ?ch < 24" by (simp add: dspmem_chunk_create_def)
  have "\<And>j::nat. 4 * int j \<noteq> 2302" by presburger
  then have ns: "no_stop ?ch ((ch_cachebits ?ch + calls_nbits (replicate 576 (24, 0))) div 24)"
    by (simp add: no_stop_def dspmem_chunk_create_def)
  from dspmem_chunk_write_seq_stream [OF cb ns]
  have "stream_shape ?ch (calls_nbits (replicate 576 (24, 0)))
          (dspmem_chunk_write_seq ?ch (replicate 576 (24, 0)))" by simp
  then show ?thesis
    by (simp add: stream_shape_def calls_nbits_replicate dspmem_chunk_create_def)
qed





lemma calls_clean_all:
  "(\<And>n v. (n, v) \<in> set cs \<Longrightarrow> drop_bit n v = 0) \<Longrightarrow> calls_clean cb cs"
  by (induction cb cs rule: calls_clean.induct) auto

lemma drop_bit_ucast8 [simp]: "drop_bit 8 (ucast (x :: 8 word) :: 32 word) = 0"
  by (rule bit_word_eqI) (auto simp: bit_simps dest: bit_imp_le_length)

lemma drop_bit_ucast16 [simp]: "drop_bit 16 (ucast (x :: 16 word) :: 32 word) = 0"
  by (rule bit_word_eqI) (auto simp: bit_simps dest: bit_imp_le_length)

lemma ucast_ucast8 [simp]: "(ucast (ucast (x :: 8 word) :: 32 word) :: 8 word) = x"
  by (rule bit_word_eqI) (auto simp: bit_simps)

lemma ucast_ucast16 [simp]: "(ucast (ucast (x :: 16 word) :: 32 word) :: 8 word) = ucast x"
  by (rule bit_word_eqI) (auto simp: bit_simps)

lemma ucast_drop_ucast16 [simp]:
  "(ucast (drop_bit 8 (ucast (x :: 16 word) :: 32 word)) :: 8 word) = ucast (drop_bit 8 x)"
  by (rule bit_word_eqI) (auto simp: bit_simps)

lemma section_calls_clean: "calls_clean cb (wt_type10_comp_section_calls s)"
  by (rule calls_clean_all) (auto simp: wt_type10_comp_section_calls_def split: if_splits)




lemma calls_nbits_Nil [simp]: "calls_nbits [] = 0"
  by (simp add: calls_nbits_def)











lemma length_comp_section_bytes:
  "length (comp_section_bytes s) = 4 * (if cs_flags s AND 0x80 \<noteq> 0 then 3 else 2)"
  by (simp add: comp_section_bytes_def)


subsection \<open>The struct of the Composite compiler and the sections read\<close>


lemma ucast_and_ff [simp]: "(ucast (0xFF AND x) :: 8 word) = ucast x" for x :: "'a::len word"
proof -
  have m: "(0xFF :: 'a word) = mask 8" by (simp add: mask_eq_exp_minus_1)
  show ?thesis unfolding m by (rule bit_word_eqI) (auto simp: bit_simps dest: bit_imp_le_length)
qed

lemma ucast_and_ffff [simp]: "(ucast (0xFFFF AND x) :: 16 word) = ucast x" for x :: "'a::len word"
proof -
  have m: "(0xFFFF :: 'a word) = mask 16" by (simp add: mask_eq_exp_minus_1)
  show ?thesis unfolding m by (rule bit_word_eqI) (auto simp: bit_simps dest: bit_imp_le_length)
qed












lemma holds_inner_loop [simp]: "comp_holds (cmp\<lparr>c_inner_loop := x\<rparr>) q = comp_holds cmp q"
  by (simp add: comp_holds_def)












section \<open>The claims about the Composite encoder\<close>




section \<open>Properties of the single precision model\<close>

lemma pow2_powi: "pow2 e = 2 powi e"
  by (simp add: pow2_def power_int_def power_inverse inverse_eq_divide power_one_over)

lemma pow2_pos [simp]: "0 < pow2 e"
  by (simp add: pow2_powi)

lemma pow2_add: "pow2 (a + b) = pow2 a * pow2 b"
  by (simp add: pow2_powi power_int_add)

lemma pow2_mono: "a \<le> b \<Longrightarrow> pow2 a \<le> pow2 b"
  by (simp add: pow2_powi power_int_increasing)

lemma pow2_strict_mono: "a < b \<Longrightarrow> pow2 a < pow2 b"
  by (simp add: pow2_powi power_int_strict_increasing)

lemma pow2_of_nat: "pow2 (int n) = 2 ^ n"
  by (simp add: pow2_def)

lemma pow2_diff_nat: "pow2 (int a - int b) = 2 ^ a / 2 ^ b"
proof -
  have "pow2 (int a - int b) * pow2 (int b) = pow2 (int a)"
    by (simp flip: pow2_add)
  then show ?thesis by (simp add: pow2_of_nat field_simps)
qed

lemma ilog2_bounds:
  assumes "0 < x"
  shows "pow2 (ilog2 x) \<le> x \<and> x < pow2 (ilog2 x + 1)"
proof -
  obtain n d where q: "quotient_of x = (n, d)" by (cases "quotient_of x")
  have d: "0 < d" using quotient_of_denom_pos [OF q] .
  have x: "x = of_int n / of_int d" using quotient_of_div [OF q] .
  have n: "0 < n" using assms d unfolding x by (simp add: zero_less_divide_iff)
  define la where "la = floorlog 2 (nat n)"
  define lb where "lb = floorlog 2 (nat d)"
  have bn: "2 ^ (la - 1) \<le> nat n" "nat n < 2 ^ la"
    using floorlog_bounds [of "nat n" 2] n by (simp_all add: la_def)
  have bd: "2 ^ (lb - 1) \<le> nat d" "nat d < 2 ^ lb"
    using floorlog_bounds [of "nat d" 2] d by (simp_all add: lb_def)
  have la: "0 < la" using n by (simp add: la_def floorlog_def)
  have lb: "0 < lb" using d by (simp add: lb_def floorlog_def)
  have rn: "(2::rat) ^ (la - 1) \<le> of_int n" "of_int n < (2::rat) ^ la"
  proof -
    have "of_nat (2 ^ (la - 1)) \<le> (of_nat (nat n) :: rat)" using bn(1) by (simp only: of_nat_le_iff)
    then show "(2::rat) ^ (la - 1) \<le> of_int n" using n by simp
    have "(of_nat (nat n) :: rat) < of_nat (2 ^ la)" using bn(2) by (simp only: of_nat_less_iff)
    then show "of_int n < (2::rat) ^ la" using n by simp
  qed
  have rd: "(2::rat) ^ (lb - 1) \<le> of_int d" "of_int d < (2::rat) ^ lb"
  proof -
    have "of_nat (2 ^ (lb - 1)) \<le> (of_nat (nat d) :: rat)" using bd(1) by (simp only: of_nat_le_iff)
    then show "(2::rat) ^ (lb - 1) \<le> of_int d" using d by simp
    have "(of_nat (nat d) :: rat) < of_nat (2 ^ lb)" using bd(2) by (simp only: of_nat_less_iff)
    then show "of_int d < (2::rat) ^ lb" using d by simp
  qed
  define e0 where "e0 = int la - int lb"
  have up: "x < pow2 (e0 + 1)"
  proof -
    have "pow2 (e0 + 1) = 2 ^ la / 2 ^ (lb - 1)"
      using pow2_diff_nat [of la "lb - 1"] lb by (simp add: e0_def of_nat_diff algebra_simps)
    moreover have "of_int n / of_int d < (2::rat) ^ la / 2 ^ (lb - 1)"
      using rn(2) rd(1) d n by (intro frac_less) auto
    ultimately show ?thesis by (simp add: x)
  qed
  have lo: "pow2 (e0 - 1) \<le> x"
  proof -
    have "pow2 (e0 - 1) = 2 ^ (la - 1) / 2 ^ lb"
      using pow2_diff_nat [of "la - 1" lb] la by (simp add: e0_def of_nat_diff algebra_simps)
    moreover have "(2::rat) ^ (la - 1) / 2 ^ lb \<le> of_int n / of_int d"
      using rn(1) rd(2) d n by (intro frac_le) auto
    ultimately show ?thesis by (simp add: x)
  qed
  have il: "ilog2 x = (if pow2 e0 \<le> x then e0 else e0 - 1)"
    by (simp add: ilog2_def q la_def lb_def e0_def)
  show ?thesis
    using up lo by (auto simp: il not_le)
qed

lemma ilog2_unique:
  assumes "pow2 e \<le> x" "x < pow2 (e + 1)"
  shows "ilog2 x = e"
proof -
  have x: "0 < x" using assms(1) pow2_pos [of e] by linarith
  note b = ilog2_bounds [OF x]
  show ?thesis
  proof (rule ccontr)
    assume "ilog2 x \<noteq> e"
    then consider "ilog2 x + 1 \<le> e" | "e + 1 \<le> ilog2 x" by linarith
    then show False
    proof cases
      case 1
      then have "pow2 (ilog2 x + 1) \<le> pow2 e" by (rule pow2_mono)
      with b assms show False by linarith
    next
      case 2
      then have "pow2 (e + 1) \<le> pow2 (ilog2 x)" by (rule pow2_mono)
      with b assms show False by linarith
    qed
  qed
qed

lemma round_half_even_le: "round_half_even y \<le> \<lfloor>y\<rfloor> + 1"
  by (simp add: round_half_even_def Let_def)

lemma float_round_normal:
  assumes "pow2 (p + 23) \<le> a" "a < pow2 (p + 24)" "- 149 \<le> p" "p < 104"
  shows "float_round a = Finite (of_int (round_half_even (a / pow2 p)) * pow2 p)"
    and "float_round (- a) = Finite (- (of_int (round_half_even (a / pow2 p)) * pow2 p))"
proof -
  have a: "0 < a" using assms(1) pow2_pos [of "p + 23"] by linarith
  have il: "ilog2 a = p + 23"
    using ilog2_unique [of "p + 23" a] assms(1,2) by (simp add: add.commute add.left_commute)
  have mx: "max (ilog2 a) (- 126) - 23 = p" using assms(3) by (simp add: il)
  define m where "m = round_half_even (a / pow2 p)"
  have "a / pow2 p < pow2 (p + 24) / pow2 p"
    using assms(2) by (simp add: divide_strict_right_mono)
  also have "\<dots> = 2 ^ 24" using pow2_add [of p 24] by (simp add: pow2_def)
  finally have y: "a / pow2 p < 2 ^ 24" .
  then have "\<lfloor>a / pow2 p\<rfloor> < 2 ^ 24" by (simp add: floor_less_iff)
  then have m: "m \<le> 2 ^ 24" using round_half_even_le [of "a / pow2 p"] unfolding m_def by linarith
  have "of_int m * pow2 p \<le> (2 ^ 24 :: rat) * pow2 103"
  proof (rule mult_mono)
    show "(of_int m :: rat) \<le> 2 ^ 24" using m by (metis of_int_le_iff of_int_numeral of_int_power)
    show "pow2 p \<le> pow2 103" using assms(4) by (intro pow2_mono) simp
  qed (use pow2_pos [of p] in \<open>simp_all add: less_imp_le\<close>)
  also have "\<dots> < 2 ^ 128" by (simp add: pow2_def)
  finally have r: "\<not> (2 ^ 128 \<le> of_int m * pow2 p)" by simp
  show "float_round a = Finite (of_int (round_half_even (a / pow2 p)) * pow2 p)"
    using a r by (simp add: float_round_def Let_def mx m_def)
  have na: "\<bar>- a\<bar> = a" using a by simp
  show "float_round (- a) = Finite (- (of_int (round_half_even (a / pow2 p)) * pow2 p))"
    using a r by (simp add: float_round_def Let_def na mx m_def)
qed

lemma float_round_0 [simp]: "float_round 0 = Finite 0"
  by (simp add: float_round_def)

lemma floor_rat_numeral_div [simp]: "\<lfloor>(numeral a :: rat) / numeral b\<rfloor> = numeral a div numeral b"
  by (metis floor_divide_of_int_eq of_int_numeral)

lemmas fr = round_half_even_def pow2_def Let_def

lemma float_round_vals:
  "float_round 1 = Finite 1"
  "float_round (- 1) = Finite (- 1)"
  "float_round (1 / 4) = Finite (1 / 4)"
  "float_round (- 512) = Finite (- 512)"
  "float_round (2047 / 4) = Finite (2047 / 4)"
  "float_round (4095 / 4) = Finite (4095 / 4)"
  "float_round (65535 / 4) = Finite (65535 / 4)"
  "float_round (4997559 / 5000000) = Finite (16769025 / 16777216)"
  using float_round_normal [of "- 23" 1] float_round_normal [of "- 25" "1 / 4"]
    float_round_normal [of "- 14" 512] float_round_normal [of "- 15" "2047 / 4"]
    float_round_normal [of "- 14" "4095 / 4"] float_round_normal [of "- 10" "65535 / 4"]
    float_round_normal [of "- 24" "4997559 / 5000000"]
  by (simp_all add: fr)

lemma float_round_vals2:
  "float_round (799 / 2) = Finite (799 / 2)"
  "float_round 1598 = Finite 1598"
  "float_round 400 = Finite 400"
  "float_round 1600 = Finite 1600"
  "float_round 200 = Finite 200"
  "float_round 800 = Finite 800"
  "float_round (1536 / 3125) = Finite (8246337 / 16777216)"
  "float_round (8246337 / 8192) = Finite (8246337 / 8192)"
  "float_round (11 / 500) = Finite (1476395 / 67108864)"
  using float_round_normal [of "- 15" "799 / 2"] float_round_normal [of "- 13" 1598]
    float_round_normal [of "- 15" 400] float_round_normal [of "- 13" 1600]
    float_round_normal [of "- 16" 200] float_round_normal [of "- 14" 800]
    float_round_normal [of "- 25" "1536 / 3125"] float_round_normal [of "- 14" "8246337 / 8192"]
    float_round_normal [of "- 29" "11 / 500"]
  by (simp_all add: fr)

lemma float_round_vb:
  "float_round (12384897431765 / 67108864) = Finite (11811159 / 64)"
  using float_round_normal [of "- 6" "12384897431765 / 67108864"]
  by (simp add: fr)

lemma floor_rat_one_div [simp]: "\<lfloor>(1 :: rat) / numeral b\<rfloor> = 1 div numeral b"
  by (metis floor_divide_of_int_eq of_int_numeral of_int_1)

lemmas libc_defs = isdigit_def isalpha_def isspace_def digits_val_def char_at0_def strtok_tokens_def
  strsep_def strnchr_def scan_sign_def strtoul_def atoi_def c_atoi_def scan_u_def scan_s3_def sscanf_u3_def

lemmas strtof_defs = strtof_def libc_defs tolower_def isxdigit_def xdigits_val_def
  scan_exponent_def pow10_def pow2_def

lemma float_lit_vals:
  "float_lit 0 = 0" "float_lit 1 = 1" "float_lit (- 1) = - 1" "float_lit (1 / 4) = 1 / 4"
  "float_lit (- 512) = - 512" "float_lit (2047 / 4) = 2047 / 4"
  "float_lit (4095 / 4) = 4095 / 4" "float_lit (65535 / 4) = 65535 / 4"
  "float_lit (4997559 / 5000000) = 16769025 / 16777216"
  by (simp_all add: float_lit_def float_round_vals)

lemmas float_vals = float_round_vals float_round_vals2 float_round_vb float_lit_vals

lemma parse_float_vals:
  "parse_float (Some ''399.5'') 4 0 (4095 / 4) = Inr 1598"
  "parse_float (Some ''0'') 4 0 (4095 / 4) = Inr 0"
  "parse_float (Some ''0'') 4 0 (65535 / 4) = Inr 0"
  "parse_float (Some ''400'') 4 0 (65535 / 4) = Inr 1600"
  "parse_float (Some ''0.49152'') 2048 (- 1) (4997559 / 5000000) = Inr 1007"
  "parse_float (Some ''200'') 4 (1 / 4) (4095 / 4) = Inr 800"
  "parse_float (Some ''0.022'') 8388607 0 1 = Inr 184549"
  by (simp_all add: parse_float_def strtof_defs float_vals roundf_def)

section \<open>Properties of the PWLE compiler\<close>

lemmas pwle_defs = wt_type12_pwle_parse_def wt_type12_pwle_init_def wt_type12_pwle_token_def
  wt_type12_pwle_specifier_get_def wt_type12_pwle_save_entry_def wt_type12_pwle_feature_entry_def
  wt_type12_pwle_repeat_entry_def wt_type12_pwle_svc_mode_entry_def
  wt_type12_pwle_svc_braking_time_entry_def wt_type12_pwle_ep_length_entry_def
  wt_type12_pwle_ep_payload_entry_def wt_type12_pwle_ep_threshold_entry_def
  wt_type12_pwle_wait_time_entry_def wt_type12_pwle_time_entry_def wt_type12_pwle_level_entry_def
  wt_type12_pwle_freq_entry_def wt_type12_pwle_vb_target_entry_def pwle_section_upd_def
  pwle_lift_def

lemma c5_tokens:
  "strtok_tokens ''S:0,WF:8,RP:1,WT:399.5,T0:0,L0:0.49152,F0:200,C0:0,B0:0,AR0:0,V0:0,T1:400,L1:0.49152,F1:200,C1:0,B1:0,AR1:1,V1:0.022'' [CHR '','', CHR 0x0A] =
   [''S:0'', ''WF:8'', ''RP:1'', ''WT:399.5'', ''T0:0'', ''L0:0.49152'', ''F0:200'', ''C0:0'', ''B0:0'', ''AR0:0'', ''V0:0'',
    ''T1:400'', ''L1:0.49152'', ''F1:200'', ''C1:0'', ''B1:0'', ''AR1:1'', ''V1:0.022'']"
  by (simp add: strtok_tokens_def)

lemma c5_fail: "wt_type12_pwle_parse g
   ''S:0,WF:8,RP:1,WT:399.5,T0:0,L0:0.49152,F0:200,C0:0,B0:0,AR0:0,V0:0,T1:400,L1:0.49152,F1:200,C1:0,B1:0,AR1:1,V1:0.022'' = Inl EINVAL"
  unfolding wt_type12_pwle_parse_def c5_tokens
  by (simp add: pwle_defs libc_defs parse_float_vals)

lemmas entry_defs = wt_type12_pwle_save_entry_def wt_type12_pwle_feature_entry_def
  wt_type12_pwle_repeat_entry_def wt_type12_pwle_svc_mode_entry_def
  wt_type12_pwle_svc_braking_time_entry_def wt_type12_pwle_ep_length_entry_def
  wt_type12_pwle_ep_payload_entry_def wt_type12_pwle_ep_threshold_entry_def
  wt_type12_pwle_wait_time_entry_def wt_type12_pwle_time_entry_def wt_type12_pwle_level_entry_def
  wt_type12_pwle_freq_entry_def wt_type12_pwle_vb_target_entry_def pwle_section_upd_def
  pwle_lift_def

lemma token_num_vals:
  "wt_type12_pwle_token st tok = Inr st' \<Longrightarrow> l_num_vals st' = l_num_vals st"
  unfolding wt_type12_pwle_token_def
  by (auto simp: Let_def entry_defs
      split: wt_type12_pwle_specifier.splits sum.splits if_splits prod.splits)


lemma loop_append:
  "wt_type12_pwle_loop st (xs @ ys) =
     (case wt_type12_pwle_loop st xs of Inl e \<Rightarrow> Inl e | Inr st1 \<Rightarrow> wt_type12_pwle_loop st1 ys)"
  by (induction xs arbitrary: st) (auto split: sum.splits)

lemma loop_num_vals:
  "wt_type12_pwle_loop st toks = Inr st' \<Longrightarrow> l_num_vals st' = l_num_vals st + length toks"
proof (induction toks arbitrary: st)
  case Nil then show ?case by simp
next
  case (Cons tok toks)
  from Cons.prems obtain st1 where t: "wt_type12_pwle_token st tok = Inr st1"
    and l: "wt_type12_pwle_loop (st1\<lparr>l_num_vals := l_num_vals st1 + 1\<rparr>) toks = Inr st'"
    by (auto split: if_splits sum.splits)
  show ?case using Cons.IH [OF l] token_num_vals [OF t] by simp
qed




lemma rel_tokens:
  "strtok_tokens ''S:0,WF:8,RP:1,WT:399.5,T0:0,L0:0.49152,F0:200,C0:0,B0:0,AR0:0,R0:0,V0:0,T1:400,L1:0.49152,F1:200,C1:0,B1:0,AR1:1,R1:0,V1:0.022'' [CHR '','', CHR 0x0A] =
   [''S:0'', ''WF:8'', ''RP:1'', ''WT:399.5'', ''T0:0'', ''L0:0.49152'', ''F0:200'', ''C0:0'', ''B0:0'', ''AR0:0'', ''R0:0'', ''V0:0'',
    ''T1:400'', ''L1:0.49152'', ''F1:200'', ''C1:0'', ''B1:0'', ''AR1:1'', ''R1:0'', ''V1:0.022'']"
  by (simp add: strtok_tokens_def)

lemma rel_parse:
  "wt_type12_pwle_parse g
     ''S:0,WF:8,RP:1,WT:399.5,T0:0,L0:0.49152,F0:200,C0:0,B0:0,AR0:0,R0:0,V0:0,T1:400,L1:0.49152,F1:200,C1:0,B1:0,AR1:1,R1:0,V1:0.022'' =
   Inr (g\<lparr>p_feature := 2048, p_repeat := 1, p_wait := 1598,
          p_nampsections := p_nampsections g + 1,
          p_sections := (p_sections g)
            (0 := p_sections g 0
               \<lparr>s_time := 0, s_level := 1007, s_flags := 16, s_frequency := 800\<rparr>,
             Suc 0 := p_sections g (Suc 0)
               \<lparr>s_time := 1600, s_level := 1007, s_flags := 48, s_frequency := 800,
                  s_vbtarget := 184549\<rparr>,
             Suc (Suc 0) := p_sections g (Suc (Suc 0))\<lparr>s_flags := 0\<rparr>),
          p_nsections := 2, p_str_len := 1, p_wlength := 8398204\<rparr>)"
  unfolding wt_type12_pwle_parse_def rel_tokens
  by (simp add: pwle_defs libc_defs parse_float_vals)

lemmas write_defs = wt_type12_pwle_write_def wt_type12_pwle_calls_def
  wt_type12_pwle_section_calls_def wt_type12_pwle_metadata_calls_def dspmem_chunk_write_seq_def
  dspmem_chunk_create_def dspmem_chunk_flush_def dspmem_chunk_bytes_def write_fits write_full
  Let_def

lemma upt_2: "[0..<2] = [0, Suc 0]"
  by (simp add: upt_rec numeral_2_eq_2)

lemma rel_compile_zero:
  "wt_type12_pwle_str_to_bin wt_type12_pwle_zero
     ''S:0,WF:8,RP:1,WT:399.5,T0:0,L0:0.49152,F0:200,C0:0,B0:0,AR0:0,R0:0,V0:0,T1:400,L1:0.49152,F1:200,C1:0,B1:0,AR1:1,R1:0,V1:0.022'' =
   Inr (44,
      [0, 8, 0, 12, 0, 0, 0, 3, 0, 0, 0, 8, 0, 128, 37, 124, 0, 1, 99, 224,
       0, 32, 0, 3, 0, 239, 50, 17, 0, 0, 100, 3, 0, 239, 50, 49, 0, 0, 45,
       14, 0, 80, 0, 0])"
  unfolding wt_type12_pwle_str_to_bin_def rel_parse
  by (simp add: wt_type12_pwle_zero_def write_defs upt_2)

lemma parse_loop:
  assumes "wt_type12_pwle_parse pwle0 full_str = Inr pwle"
  obtains st where
    "wt_type12_pwle_loop (wt_type12_pwle_init pwle0)
       (strtok_tokens full_str [CHR '','', CHR 0x0A]) = Inr st"
    "p_wait pwle = p_wait (l_pwle st)" "p_repeat pwle = p_repeat (l_pwle st)"
    "p_feature pwle = p_feature (l_pwle st)"
    "p_svc_metadata pwle = p_svc_metadata (l_pwle st)"
    "p_wlength pwle =
       (if l_indef st
        then ((p_wlength (l_pwle st) * (ucast (p_repeat (l_pwle st)) + 1) -
               ucast (p_wait (l_pwle st))) * 2) OR 0x00400000
        else (p_wlength (l_pwle st) * (ucast (p_repeat (l_pwle st)) + 1) -
               ucast (p_wait (l_pwle st))) * 2) OR 0x00800000"
  using assms unfolding wt_type12_pwle_parse_def
  by (auto simp: Let_def split: sum.splits if_splits)

text \<open>
  What the tokens \<open>M\<close> and \<open>K\<close> leave in the SVC metadata: they are accepted only as
  the fifth and the sixth token, and no other token writes there.
\<close>

lemma token_svc:
  assumes "wt_type12_pwle_token st tok = Inr st'"
  shows "pwle_tok_key tok \<noteq> PWLE_SPEC_SVC_MODE \<Longrightarrow>
         pwle_tok_key tok \<noteq> PWLE_SPEC_SVC_BRAKING_TIME \<Longrightarrow>
         p_svc_metadata (l_pwle st') = p_svc_metadata (l_pwle st)"
    and "pwle_tok_key tok = PWLE_SPEC_SVC_MODE \<Longrightarrow> l_num_vals st = 4"
    and "pwle_tok_key tok = PWLE_SPEC_SVC_BRAKING_TIME \<Longrightarrow> l_num_vals st = 5"
    and "pwle_tok_key tok = PWLE_SPEC_SVC_MODE \<Longrightarrow> pwle_tok_val tok = Some v \<Longrightarrow> 0 \<le> atoi v \<Longrightarrow>
         atoi v \<le> 3 \<and>
         svc_id (p_svc_metadata (l_pwle st')) = 1 \<and>
         svc_length (p_svc_metadata (l_pwle st')) = 1 \<and>
         svc_mode (p_svc_metadata (l_pwle st')) = word_of_int (atoi v)"
    and "pwle_tok_key tok = PWLE_SPEC_SVC_BRAKING_TIME \<Longrightarrow> pwle_tok_val tok = Some v \<Longrightarrow>
         p_svc_metadata (l_pwle st') =
           (p_svc_metadata (l_pwle st))\<lparr>svc_braking_time := word_of_int (atoi v * 8)\<rparr>"
  using assms unfolding wt_type12_pwle_token_def pwle_tok_key_def pwle_tok_val_def
  by (auto simp: Let_def entry_defs c_atoi_def
      split: wt_type12_pwle_specifier.splits sum.splits if_splits prod.splits)

lemma loop_svc_frozen:
  "wt_type12_pwle_loop st toks = Inr st' \<Longrightarrow> 5 < l_num_vals st \<Longrightarrow>
   p_svc_metadata (l_pwle st') = p_svc_metadata (l_pwle st)"
proof (induction toks arbitrary: st)
  case Nil then show ?case by simp
next
  case (Cons tok toks)
  from Cons.prems(1) obtain st1 where t: "wt_type12_pwle_token st tok = Inr st1"
    and l: "wt_type12_pwle_loop (st1\<lparr>l_num_vals := l_num_vals st1 + 1\<rparr>) toks = Inr st'"
    by (auto split: if_splits sum.splits)
  have nv: "5 < l_num_vals (st1\<lparr>l_num_vals := l_num_vals st1 + 1\<rparr>)"
    using token_num_vals [OF t] Cons.prems(2) by simp
  have "pwle_tok_key tok \<noteq> PWLE_SPEC_SVC_MODE" "pwle_tok_key tok \<noteq> PWLE_SPEC_SVC_BRAKING_TIME"
    using token_svc(2,3) [OF t] Cons.prems(2) by auto
  then have "p_svc_metadata (l_pwle st1) = p_svc_metadata (l_pwle st)"
    by (rule token_svc(1) [OF t])
  then show ?case using Cons.IH [OF l nv] by simp
qed

lemma ucast_mode: "0 \<le> v \<Longrightarrow> v \<le> 3 \<Longrightarrow> (ucast (word_of_int v :: 8 word) :: 32 word) = word_of_int v"
proof -
  assume "0 \<le> v" "v \<le> 3"
  then consider "v = 0" | "v = 1" | "v = 2" | "v = 3" by linarith
  then show ?thesis by cases simp_all
qed


lemma rel_compile_one:
  "wt_type12_pwle_str_to_bin (wt_type12_pwle_zero\<lparr>p_nampsections := 1\<rparr>)
     ''S:0,WF:8,RP:1,WT:399.5,T0:0,L0:0.49152,F0:200,C0:0,B0:0,AR0:0,R0:0,V0:0,T1:400,L1:0.49152,F1:200,C1:0,B1:0,AR1:1,R1:0,V1:0.022'' =
   Inr (44,
      [0, 8, 0, 12, 0, 0, 0, 3, 0, 0, 0, 9, 0, 128, 37, 124, 0, 1, 99, 224,
       0, 32, 0, 3, 0, 239, 50, 17, 0, 0, 100, 3, 0, 239, 50, 49, 0, 0, 45,
       14, 0, 80, 0, 0])"
  unfolding wt_type12_pwle_str_to_bin_def rel_parse
  by (simp add: wt_type12_pwle_zero_def write_defs upt_2)

lemma svc_tokens:
  "strtok_tokens ''S:0,WF:4,RP:1,WT:399.5,M:2,K:100,T0:0,L0:0.49152,F0:200,C0:0,B0:0,AR0:0,R0:0,V0:0,T1:400,L1:0.49152,F1:200,C1:0,B1:0,AR1:1,R1:0,V1:0.022'' [CHR '','', CHR 0x0A] =
   [''S:0'', ''WF:4'', ''RP:1'', ''WT:399.5'', ''M:2'', ''K:100'', ''T0:0'', ''L0:0.49152'', ''F0:200'', ''C0:0'', ''B0:0'', ''AR0:0'', ''R0:0'', ''V0:0'',
    ''T1:400'', ''L1:0.49152'', ''F1:200'', ''C1:0'', ''B1:0'', ''AR1:1'', ''R1:0'', ''V1:0.022'']"
  by (simp add: strtok_tokens_def)

lemma svc_parse_eq:
  "wt_type12_pwle_parse g
     ''S:0,WF:4,RP:1,WT:399.5,M:2,K:100,T0:0,L0:0.49152,F0:200,C0:0,B0:0,AR0:0,R0:0,V0:0,T1:400,L1:0.49152,F1:200,C1:0,B1:0,AR1:1,R1:0,V1:0.022'' =
   Inr (g\<lparr>p_feature := 1024, p_repeat := 1, p_wait := 1598,
          p_svc_metadata :=
            p_svc_metadata g
            \<lparr>svc_id := 1, svc_length := 1, svc_mode := 2, svc_braking_time := 800\<rparr>,
          p_nampsections := p_nampsections g + 1,
          p_sections :=
            (p_sections g)
            (0 := p_sections g 0
               \<lparr>s_time := 0, s_level := 1007, s_flags := 16, s_frequency := 800\<rparr>,
             Suc 0 :=
               p_sections g (Suc 0)
               \<lparr>s_time := 1600, s_level := 1007, s_flags := 48, s_frequency := 800,
                  s_vbtarget := 184549\<rparr>,
             Suc (Suc 0) := p_sections g (Suc (Suc 0))\<lparr>s_flags := 0\<rparr>),
          p_nsections := 2, p_str_len := 1, p_wlength := 8398204\<rparr>)"
  unfolding wt_type12_pwle_parse_def svc_tokens
  by (simp add: pwle_defs libc_defs parse_float_vals)

lemma svc_compile_zero:
  "wt_type12_pwle_str_to_bin wt_type12_pwle_zero
     ''S:0,WF:4,RP:1,WT:399.5,M:2,K:100,T0:0,L0:0.49152,F0:200,C0:0,B0:0,AR0:0,R0:0,V0:0,T1:400,L1:0.49152,F1:200,C1:0,B1:0,AR1:1,R1:0,V1:0.022'' =
   Inr (56,
      [0, 4, 0, 12,  0, 0, 0, 3,  0, 0, 0, 8,  0, 128, 37, 124,  0, 1, 99, 224,
       0, 32, 0, 3,  0, 239, 50, 17,  0, 0, 100, 3,  0, 239, 50, 49,  0, 0, 45, 14,
       0, 80, 16, 16,  0, 32, 0, 50,  0, 15, 255, 255,  0, 240, 0, 0])"
  unfolding wt_type12_pwle_str_to_bin_def svc_parse_eq
  by (simp add: wt_type12_pwle_zero_def write_defs upt_2)

lemma svc_compile_ep:
  "wt_type12_pwle_str_to_bin
     (wt_type12_pwle_zero\<lparr>p_ep_metadata :=
        \<lparr>ep_id = 2, ep_length = 0xF0000, ep_payload = 0, ep_custom_threshold = 0\<rparr>\<rparr>)
     ''S:0,WF:4,RP:1,WT:399.5,M:2,K:100,T0:0,L0:0.49152,F0:200,C0:0,B0:0,AR0:0,R0:0,V0:0,T1:400,L1:0.49152,F1:200,C1:0,B1:0,AR1:1,R1:0,V1:0.022'' =
   Inr (60,
      [0, 4, 0, 12,  0, 0, 0, 3,  0, 0, 0, 8,  0, 128, 37, 124,  0, 1, 99, 224,
       0, 32, 0, 3,  0, 239, 50, 17,  0, 0, 100, 3,  0, 239, 50, 49,  0, 0, 45, 14,
       0, 80, 16, 16,  0, 32, 0, 50,  0, 240, 32, 0,  0, 15, 255, 255,  0, 240, 0, 0])"
  unfolding wt_type12_pwle_str_to_bin_def svc_parse_eq
  by (simp add: wt_type12_pwle_zero_def write_defs upt_2)

lemma word_bits_8: "word_bits 8 w = [bit w 7, bit w 6, bit w 5, bit w 4, bit w 3, bit w 2, bit w 1, bit w 0]"
  by (simp add: numeral_eq_Suc)

lemma word_bits_24_vals:
  "word_bits 24 800 = [False, False, False, False, False, False, False, False,
     False, False, False, False, False, False, True, True,
     False, False, True, False, False, False, False, False]"
  "word_bits 24 815 = [False, False, False, False, False, False, False, False,
     False, False, False, False, False, False, True, True,
     False, False, True, False, True, True, True, True]"
  by (simp_all add: numeral_eq_Suc)

text \<open>
  What the compiler keeps of the \<open>K\<close> token: for an input that is accepted with the metadata
  flag set in the feature field, whose fifth token is \<open>M\<close> with a value \<open>m\<close> that is not
  negative and whose sixth token is \<open>K\<close> with the value \<open>k\<close> in milliseconds, the braking time
  in the struct is \<open>8 * k\<close>, and the calls of the writer for the SVC block are the id 1, the
  length 1 and the mode \<open>m\<close> in 8 bits each, and then \<open>8 * k\<close> in 24 bits.
\<close>

lemma svc_braking_time_stored:
  assumes "wt_type12_pwle_parse pwle0 full_str = Inr pwle"
    and "p_feature pwle AND 0x400 \<noteq> 0"
    and "5 < length (strtok_tokens full_str [CHR '','', CHR 0x0A])"
    and "pwle_tok_key (strtok_tokens full_str [CHR '','', CHR 0x0A] ! 4) = PWLE_SPEC_SVC_MODE"
    and "pwle_tok_val (strtok_tokens full_str [CHR '','', CHR 0x0A] ! 4) = Some m"
    and "0 \<le> atoi m"
    and "pwle_tok_key (strtok_tokens full_str [CHR '','', CHR 0x0A] ! 5) = PWLE_SPEC_SVC_BRAKING_TIME"
    and "pwle_tok_val (strtok_tokens full_str [CHR '','', CHR 0x0A] ! 5) = Some k"
  shows "svc_braking_time (p_svc_metadata pwle) = word_of_int (atoi k * 8) \<and>
         take 4 (wt_type12_pwle_metadata_calls pwle) =
           [(8, 1), (8, 1), (8, word_of_int (atoi m)), (24, word_of_int (atoi k * 8))]"
proof -
  let ?toks = "strtok_tokens full_str [CHR '','', CHR 0x0A]"
  from assms(1) obtain st where
    l: "wt_type12_pwle_loop (wt_type12_pwle_init pwle0) ?toks = Inr st"
    and f: "p_svc_metadata pwle = p_svc_metadata (l_pwle st)"
    by (rule parse_loop)
  have split: "?toks = take 4 ?toks @ ?toks ! 4 # ?toks ! 5 # drop 6 ?toks"
    using assms(3) id_take_nth_drop [of 4 ?toks] Cons_nth_drop_Suc [of 5 ?toks] by simp
  from l obtain st4 where
    l4: "wt_type12_pwle_loop (wt_type12_pwle_init pwle0) (take 4 ?toks) = Inr st4"
    and r4: "wt_type12_pwle_loop st4 (?toks ! 4 # ?toks ! 5 # drop 6 ?toks) = Inr st"
    by (subst (asm) split) (auto simp: loop_append split: sum.splits)
  have n4: "l_num_vals st4 = 4"
    using loop_num_vals [OF l4] assms(3) by (simp add: wt_type12_pwle_init_def)
  from r4 obtain a where ta: "wt_type12_pwle_token st4 (?toks ! 4) = Inr a"
    and r5: "wt_type12_pwle_loop (a\<lparr>l_num_vals := l_num_vals a + 1\<rparr>) (?toks ! 5 # drop 6 ?toks) = Inr st"
    by (auto split: if_splits sum.splits)
  let ?st5 = "a\<lparr>l_num_vals := l_num_vals a + 1\<rparr>"
  from r5 obtain b where tb: "wt_type12_pwle_token ?st5 (?toks ! 5) = Inr b"
    and r6: "wt_type12_pwle_loop (b\<lparr>l_num_vals := l_num_vals b + 1\<rparr>) (drop 6 ?toks) = Inr st"
    by (auto split: if_splits sum.splits)
  have n6: "5 < l_num_vals (b\<lparr>l_num_vals := l_num_vals b + 1\<rparr>)"
    using token_num_vals [OF ta] token_num_vals [OF tb] n4 by simp
  have s6: "p_svc_metadata (l_pwle st) = p_svc_metadata (l_pwle b)"
    using loop_svc_frozen [OF r6 n6] by simp
  have sb: "p_svc_metadata (l_pwle b) =
      (p_svc_metadata (l_pwle a))\<lparr>svc_braking_time := word_of_int (atoi k * 8)\<rparr>"
    using token_svc(5) [OF tb assms(7,8)] by simp
  note sa = token_svc(4) [OF ta assms(4,5,6)]
  have svc: "p_svc_metadata pwle =
      (p_svc_metadata (l_pwle a))\<lparr>svc_braking_time := word_of_int (atoi k * 8)\<rparr>"
    unfolding f s6 sb ..
  show ?thesis
    using sa assms(2,6) ucast_mode [of "atoi m"]
    by (simp add: svc wt_type12_pwle_metadata_calls_def)
qed

section \<open>The claims about the PWLE compiler\<close>




text \<open>
  Claim C5, as the specification states it: the string of scenario B compiles. It has no
  \<open>R\<close> token, and the test after the loop wants every one of \<open>t l f c b a v r\<close>: the compiler
  returns \<open>-EINVAL\<close>.
\<close>

theorem wt_type12_pwle_example_counterexample:
  "get_owt_data stack_zero
     ''S:0,WF:8,RP:1,WT:399.5,T0:0,L0:0.49152,F0:200,C0:0,B0:0,AR0:0,V0:0,T1:400,L1:0.49152,F1:200,C1:0,B1:0,AR1:1,V1:0.022'' =
   Inl EINVAL"
  by (simp add: get_owt_data_def char_at0_def wt_type12_pwle_str_to_bin_def c5_fail)

text \<open>
  Claim C5, amended: whatever the stack holds, compiling the string of scenario B fails
  with \<open>EINVAL\<close>; with the tokens \<open>R0:0\<close> and \<open>R1:0\<close> put in front of \<open>V0\<close> and \<open>V1\<close> the string is
  accepted, with exactly 2 sections, a repeat of 1, a raw wait value of 1598 and a raw
  \<open>vbtarget\<close> of 184549 in section 1.
\<close>

theorem wt_type12_pwle_example_needs_relfreq:
  "get_owt_data g
     ''S:0,WF:8,RP:1,WT:399.5,T0:0,L0:0.49152,F0:200,C0:0,B0:0,AR0:0,V0:0,T1:400,L1:0.49152,F1:200,C1:0,B1:0,AR1:1,V1:0.022'' =
     Inl EINVAL \<and>
   (case wt_type12_pwle_parse (g_pwle g)
      ''S:0,WF:8,RP:1,WT:399.5,T0:0,L0:0.49152,F0:200,C0:0,B0:0,AR0:0,R0:0,V0:0,T1:400,L1:0.49152,F1:200,C1:0,B1:0,AR1:1,R1:0,V1:0.022'' of
      Inl e \<Rightarrow> False
    | Inr pwle \<Rightarrow>
        p_nsections pwle = 2 \<and> p_repeat pwle = 1 \<and> p_wait pwle = 1598 \<and>
        s_vbtarget (p_sections pwle 1) = 184549)"
  unfolding rel_parse
  by (simp add: get_owt_data_def char_at0_def wt_type12_pwle_str_to_bin_def c5_fail)

text \<open>The theorem for a stack that holds zeros.\<close>

theorem wt_type12_pwle_example_needs_relfreq_witness:
  "p_nsections (projr (wt_type12_pwle_parse wt_type12_pwle_zero
      ''S:0,WF:8,RP:1,WT:399.5,T0:0,L0:0.49152,F0:200,C0:0,B0:0,AR0:0,R0:0,V0:0,T1:400,L1:0.49152,F1:200,C1:0,B1:0,AR1:1,R1:0,V1:0.022'')) = 2 \<and>
   s_vbtarget (p_sections (projr (wt_type12_pwle_parse wt_type12_pwle_zero
      ''S:0,WF:8,RP:1,WT:399.5,T0:0,L0:0.49152,F0:200,C0:0,B0:0,AR0:0,R0:0,V0:0,T1:400,L1:0.49152,F1:200,C1:0,B1:0,AR1:1,R1:0,V1:0.022'')) 1) = 184549"
  using wt_type12_pwle_example_needs_relfreq [of stack_zero]
  by (auto simp add: stack_zero_def split: sum.splits)

text \<open>
  Claim C10: the braking time field of 24 bits that is emitted is 8 times the value of the
  \<open>K\<close> token. The compiler stores \<open>8 * k\<close> and hands it to the writer, but after it the writer
  is given the EP block of the struct, which has no initialiser (and whose length no
  token can set: \<open>wt_type12_pwle_ep_length_entry\<close> refuses every value), and
  \<open>dspmem_chunk_write\<close> ORs a value onto the bits in the accumulator without masking it
  to its width. In the string below the field stands at the bits 268 to 291 of the
  stream (72 of the header, 52 of the section info, 48 and 72 of the sections, 24 of
  id, length and mode). With \<open>K:100\<close> it is 800 over a stack of zeros. Over a stack where the
  EP id holds 2 and the EP length \<open>0xF0000\<close>, its last four bits are still in the accumulator
  when the length is written in 8 bits, and the field in the buffer is 815.
\<close>

theorem wt_type12_pwle_braking_time_overwritten:
  "get_owt_data stack_zero
     ''S:0,WF:4,RP:1,WT:399.5,M:2,K:100,T0:0,L0:0.49152,F0:200,C0:0,B0:0,AR0:0,R0:0,V0:0,T1:400,L1:0.49152,F1:200,C1:0,B1:0,AR1:1,R1:0,V1:0.022'' =
     Inr (56,
      [0, 4, 0, 12,  0, 0, 0, 3,  0, 0, 0, 8,  0, 128, 37, 124,  0, 1, 99, 224,
       0, 32, 0, 3,  0, 239, 50, 17,  0, 0, 100, 3,  0, 239, 50, 49,  0, 0, 45, 14,
       0, 80, 16, 16,  0, 32, 0, 50,  0, 15, 255, 255,  0, 240, 0, 0]) \<and>
   take 24 (drop 268 (buffer_bits
      [0, 4, 0, 12,  0, 0, 0, 3,  0, 0, 0, 8,  0, 128, 37, 124,  0, 1, 99, 224,
       0, 32, 0, 3,  0, 239, 50, 17,  0, 0, 100, 3,  0, 239, 50, 49,  0, 0, 45, 14,
       0, 80, 16, 16,  0, 32, 0, 50,  0, 15, 255, 255,  0, 240, 0, 0])) = word_bits 24 (100 * 8) \<and>
   get_owt_data
     (stack_zero\<lparr>g_pwle := wt_type12_pwle_zero\<lparr>p_ep_metadata :=
        \<lparr>ep_id = 2, ep_length = 0xF0000, ep_payload = 0, ep_custom_threshold = 0\<rparr>\<rparr>\<rparr>)
     ''S:0,WF:4,RP:1,WT:399.5,M:2,K:100,T0:0,L0:0.49152,F0:200,C0:0,B0:0,AR0:0,R0:0,V0:0,T1:400,L1:0.49152,F1:200,C1:0,B1:0,AR1:1,R1:0,V1:0.022'' =
     Inr (60,
      [0, 4, 0, 12,  0, 0, 0, 3,  0, 0, 0, 8,  0, 128, 37, 124,  0, 1, 99, 224,
       0, 32, 0, 3,  0, 239, 50, 17,  0, 0, 100, 3,  0, 239, 50, 49,  0, 0, 45, 14,
       0, 80, 16, 16,  0, 32, 0, 50,  0, 240, 32, 0,  0, 15, 255, 255,  0, 240, 0, 0]) \<and>
   take 24 (drop 268 (buffer_bits
      [0, 4, 0, 12,  0, 0, 0, 3,  0, 0, 0, 8,  0, 128, 37, 124,  0, 1, 99, 224,
       0, 32, 0, 3,  0, 239, 50, 17,  0, 0, 100, 3,  0, 239, 50, 49,  0, 0, 45, 14,
       0, 80, 16, 16,  0, 32, 0, 50,  0, 240, 32, 0,  0, 15, 255, 255,  0, 240, 0, 0])) = word_bits 24 815"
  by (simp add: get_owt_data_def char_at0_def stack_zero_def svc_compile_zero svc_compile_ep
      word_bits_8 word_bits_24_vals)

section \<open>The claims about the compile entry point\<close>

text \<open>
  Claim C6, as the specification states it: the input goes to the PWLE compiler exactly when
  its first character that is not white space is \<open>S\<close>. The code looks at \<open>full_str[0]\<close> and
  skips nothing: the string \<open>" S1.100"\<close> has \<open>S\<close> as its first character that is not white
  space, the PWLE compiler rejects it, and \<open>get_owt_data\<close> returns the 12 bytes of the
  Composite compiler.
\<close>

theorem get_owt_data_leading_space_counterexample:
  "hd (dropWhile isspace '' S1.100'') = CHR ''S'' \<and>
   wt_type12_pwle_str_to_bin (g_pwle stack_zero) '' S1.100'' = Inl EINVAL \<and>
   get_owt_data stack_zero '' S1.100'' = Inr (12, [0, 0, 1, 0, 0, 100, 1, 0, 0, 0, 0, 0]) \<and>
   get_owt_data stack_zero '' S1.100'' = wt_type10_comp_str_to_bin (g_bank stack_zero) '' S1.100''"
proof -
  have a: "wt_type10_comp_str_to_bin [] '' S1.100'' = Inr (12, [0, 0, 1, 0, 0, 100, 1, 0, 0, 0, 0, 0])"
    by code_simp
  have b: "wt_type12_pwle_str_to_bin wt_type12_pwle_zero '' S1.100'' = Inl EINVAL"
    by (simp add: wt_type12_pwle_str_to_bin_def pwle_defs libc_defs)
  show ?thesis
    by (simp add: get_owt_data_def stack_zero_def char_at0_def a b isspace_def)
qed

text \<open>
  Claim C6, amended: for every input string the result is that of the PWLE compiler if
  the first character of the string, white space or not, is \<open>S\<close>, and that of the Composite
  compiler for every other string, the empty one included; nothing else is looked at.
\<close>

theorem get_owt_data_first_character:
  "get_owt_data g full_str =
     (if take 1 full_str = ''S'' then wt_type12_pwle_str_to_bin (g_pwle g) full_str
      else wt_type10_comp_str_to_bin (g_bank g) full_str)"
  by (cases full_str) (simp_all add: get_owt_data_def char_at0_def)

text \<open>
  Claim C9: compiling the same string twice gives the same bytes. The PWLE compiler
  declares \<open>struct wt_type12_pwle pwle;\<close> without an initialiser, only ever increments
  \<open>nampsections\<close>, and writes it into the header word count: the same string compiled over
  a stack that holds zeros and over one where that field holds 1 gives two buffers that
  differ in the byte at offset 11.
\<close>

theorem get_owt_data_depends_on_stack:
  "get_owt_data stack_zero
     ''S:0,WF:8,RP:1,WT:399.5,T0:0,L0:0.49152,F0:200,C0:0,B0:0,AR0:0,R0:0,V0:0,T1:400,L1:0.49152,F1:200,C1:0,B1:0,AR1:1,R1:0,V1:0.022'' =
     Inr (44,
      [0, 8, 0, 12, 0, 0, 0, 3, 0, 0, 0, 8, 0, 128, 37, 124, 0, 1, 99, 224,
       0, 32, 0, 3, 0, 239, 50, 17, 0, 0, 100, 3, 0, 239, 50, 49, 0, 0, 45,
       14, 0, 80, 0, 0]) \<and>
   get_owt_data (stack_zero\<lparr>g_pwle := wt_type12_pwle_zero\<lparr>p_nampsections := 1\<rparr>\<rparr>)
     ''S:0,WF:8,RP:1,WT:399.5,T0:0,L0:0.49152,F0:200,C0:0,B0:0,AR0:0,R0:0,V0:0,T1:400,L1:0.49152,F1:200,C1:0,B1:0,AR1:1,R1:0,V1:0.022'' =
     Inr (44,
      [0, 8, 0, 12, 0, 0, 0, 3, 0, 0, 0, 9, 0, 128, 37, 124, 0, 1, 99, 224,
       0, 32, 0, 3, 0, 239, 50, 17, 0, 0, 100, 3, 0, 239, 50, 49, 0, 0, 45,
       14, 0, 80, 0, 0])"
  by (simp add: get_owt_data_def char_at0_def stack_zero_def rel_compile_zero rel_compile_one)

section \<open>The claims about the Composite tokens\<close>

text \<open>
  Claim C7: a repeat count of an inner loop stop or of a finite outer loop marker is
  accepted only if it is 1 to 32. The code rejects 0 and has no upper limit: 33 is
  accepted and encoded for the outer loop and for the inner loop, and 256 is accepted
  and encoded as its low 8 bits, 0.
\<close>

theorem wt_type10_comp_repeat_above_32:
  "wt_type10_comp_str_to_bin [] ''1.100, 33!'' =
     Inr (12, [0, 0, 1, 33, 0, 100, 1, 0, 0, 0, 0, 0]) \<and>
   wt_type10_comp_str_to_bin [] ''!!, 1.100, 33!!'' =
     Inr (12, [0, 0, 1, 0, 0, 100, 1, 33, 0, 0, 0, 0]) \<and>
   wt_type10_comp_str_to_bin [] ''1.100, 256!'' =
     Inr (12, [0, 0, 1, 0, 0, 100, 1, 0, 0, 0, 0, 0])"
  by code_simp

text \<open>
  Claim C8: a waveform token without a bank prefix is encoded for the RAM bank. For
  such a token \<open>sscanf\<close> does not write \<open>bank\<close>, which has no initialiser, and the comparisons
  read what the stack held: if that is \<open>ROM\<close> the section gets the flag \<open>0x40\<close>, if it is \<open>OWT\<close>
  the flag \<open>0x20\<close>. What it holds may be what the call for the token before left: in
  \<open>1.100, ROM2.100, 3.100\<close> the third section gets the flag of the second.
\<close>

theorem wt_type10_comp_bank_uninitialised:
  "wt_type10_comp_str_to_bin ''ROM'' ''1.100'' =
     Inr (12, [0, 0, 1, 0, 0, 100, 1, 0, 0, 0x40, 0, 0]) \<and>
   wt_type10_comp_str_to_bin ''OWT'' ''1.100'' =
     Inr (12, [0, 0, 1, 0, 0, 100, 1, 0, 0, 0x20, 0, 0]) \<and>
   wt_type10_comp_str_to_bin [] ''1.100, ROM2.100, 3.100'' =
     Inr (28, [0, 0, 3, 0,  0, 100, 1, 0,  0, 0, 0, 0,  0, 100, 2, 0,  0, 0x40, 0, 0,
               0, 100, 3, 0,  0, 0x40, 0, 0])"
  by code_simp

end
